theory Spec2Isabelle
  imports Main "HOL-Library.Multiset"
begin

section \<open>The template store of Web Skyling\<close>

text \<open>
  The store lives in \<^verbatim>\<open>server.js\<close>: two PostgreSQL tables created by \<^verbatim>\<open>initDB\<close> and six
  Express handlers that run SQL statements through the \<^verbatim>\<open>pg\<close> connection pool. The handlers
  are anonymous arrow functions, so each definition below is named after the operation it
  serves and cites its route. An SQL statement becomes a function from the database to an
  outcome and the database after it; a handler becomes the sequence of statements it
  issues, with every \<^verbatim>\<open>return res.status(...)\<close> and every \<^verbatim>\<open>catch\<close> a branch.
  The file holds the server twice, without and with the login middleware; the tables and
  the six handlers are the same text in both. A handler is modelled from the point where
  the middleware has passed the request on.
\<close>

subsection \<open>Values of the request body\<close>

text \<open>
  \<^verbatim>\<open>name\<close>, \<^verbatim>\<open>newName\<close>, \<^verbatim>\<open>key\<close> and \<^verbatim>\<open>value\<close> are read from the parsed JSON body. The
  store treats them as text, so a field is a string, \<^verbatim>\<open>null\<close>, or \<^verbatim>\<open>undefined\<close> when the
  body has no such member. A string stands for well-formed Unicode text, given by the
  bytes of its UTF-8 form. \<open>truthy\<close> is JavaScript's boolean coercion on these values
  (\<^verbatim>\<open>!name\<close>, \<^verbatim>\<open>newName && ...\<close>, \<^verbatim>\<open>newName || oldName\<close>).
\<close>

datatype jsval = Undefined | Null | Str string

fun truthy :: "jsval \<Rightarrow> bool" where
  "truthy Undefined = False"
| "truthy Null = False"
| "truthy (Str s) = (s \<noteq> [])"

text \<open>\<^verbatim>\<open>newName || oldName\<close>\<close>

definition js_or :: "jsval \<Rightarrow> jsval \<Rightarrow> jsval" where
  "js_or a b = (if truthy a then a else b)"

text \<open>
  The \<^verbatim>\<open>pg\<close> driver sends \<^verbatim>\<open>undefined\<close> and \<^verbatim>\<open>null\<close> parameters as SQL \<^verbatim>\<open>NULL\<close> and a
  string as itself. \<open>None\<close> is \<^verbatim>\<open>NULL\<close>.
\<close>

fun prepareValue :: "jsval \<Rightarrow> string option" where
  "prepareValue Undefined = None"
| "prepareValue Null = None"
| "prepareValue (Str s) = Some s"

text \<open>
  The \<^verbatim>\<open>data\<close> member is the payload of a template: the three text fields the page
  sends. The store never looks inside it.
\<close>

record payload =
  "structure" :: string
  "output" :: string
  limitations :: string

subsection \<open>What PostgreSQL accepts as a parameter\<close>

text \<open>
  A text parameter must not contain the character NUL: the server refuses it when the
  statement is bound (SQLSTATE 22021), before anything runs. A string reaches the server
  with a NUL when the JSON body has the escape \<^verbatim>\<open>\u0000\<close> or the path has \<^verbatim>\<open>%00\<close>.
  The payload is sent as JSON text and read as \<^verbatim>\<open>JSONB\<close>, which refuses a string with
  the escape \<^verbatim>\<open>\u0000\<close> (SQLSTATE 22P05), again at binding. \<^verbatim>\<open>NULL\<close> passes binding.
\<close>

definition text_ok :: "string \<Rightarrow> bool" where
  "text_ok s = (CHR 0x00 \<notin> set s)"

definition jsonb_ok :: "payload \<Rightarrow> bool" where
  "jsonb_ok p = (text_ok (structure p) \<and> text_ok (output p) \<and> text_ok (limitations p))"

fun text_param_ok :: "string option \<Rightarrow> bool" where
  "text_param_ok None = True"
| "text_param_ok (Some s) = text_ok s"

fun jsonb_param_ok :: "payload option \<Rightarrow> bool" where
  "jsonb_param_ok None = True"
| "jsonb_param_ok (Some p) = jsonb_ok p"

subsection \<open>The two tables\<close>

text \<open>
  \<^verbatim>\<open>web_skyling_config (key TEXT PRIMARY KEY, value TEXT)\<close> and
  \<^verbatim>\<open>web_skyling_templates (id SERIAL PRIMARY KEY, name TEXT UNIQUE NOT NULL,
  data JSONB NOT NULL, created_at TIMESTAMP DEFAULT CURRENT_TIMESTAMP)\<close>.
  No statement of the program writes \<^verbatim>\<open>created_at\<close>, so the column always holds the
  default and is never \<^verbatim>\<open>NULL\<close>; a timestamp is a number of clock ticks. A table is the
  list of its rows in insertion order. The \<^verbatim>\<open>SERIAL\<close> column is a 32-bit integer that
  draws from a sequence, kept as its last value.
\<close>

record config_row =
  c_key :: string
  c_value :: "string option"

record template_row =
  t_id :: nat
  t_name :: string
  t_data :: payload
  t_created_at :: int

record db =
  web_skyling_config :: "config_row list"
  web_skyling_templates :: "template_row list"
  web_skyling_templates_id_seq :: nat

definition empty_db :: db where
  "empty_db = \<lparr>web_skyling_config = [], web_skyling_templates = [],
     web_skyling_templates_id_seq = 0\<rparr>"

datatype db_error =
    ConnectionError
  | CharacterNotInRepertoire
  | UntranslatableCharacter
  | SequenceLimitExceeded
  | NotNullViolation
  | UniqueViolation

subsection \<open>The SQL statements\<close>

text \<open>\<^verbatim>\<open>SELECT key, value FROM web_skyling_config\<close>\<close>

definition select_config :: "db \<Rightarrow> (db_error + config_row list) \<times> db" where
  "select_config s = (Inr (web_skyling_config s), s)"

text \<open>
  \<^verbatim>\<open>INSERT INTO web_skyling_config (key, value) VALUES ($1, $2)\<close>, the seeding statement of
  \<^verbatim>\<open>initDB\<close>: the primary key rejects a \<^verbatim>\<open>NULL\<close> and a duplicate.
\<close>

definition insert_config ::
  "string option \<Rightarrow> string option \<Rightarrow> db \<Rightarrow> (db_error + unit) \<times> db" where
  "insert_config k v s =
     (if \<not> (text_param_ok k \<and> text_param_ok v) then (Inl CharacterNotInRepertoire, s)
      else case k of
        None \<Rightarrow> (Inl NotNullViolation, s)
      | Some k' \<Rightarrow>
          if k' \<in> set (map c_key (web_skyling_config s)) then (Inl UniqueViolation, s)
          else (Inr (), s\<lparr>web_skyling_config :=
                  web_skyling_config s @ [\<lparr>c_key = k', c_value = v\<rparr>]\<rparr>))"

text \<open>
  \<^verbatim>\<open>INSERT INTO web_skyling_config (key, value) VALUES ($1, $2)
  ON CONFLICT (key) DO UPDATE SET value = $2\<close>
\<close>

definition insert_config_on_conflict_update ::
  "string option \<Rightarrow> string option \<Rightarrow> db \<Rightarrow> (db_error + unit) \<times> db" where
  "insert_config_on_conflict_update k v s =
     (if \<not> (text_param_ok k \<and> text_param_ok v) then (Inl CharacterNotInRepertoire, s)
      else case k of
        None \<Rightarrow> (Inl NotNullViolation, s)
      | Some k' \<Rightarrow>
          if k' \<in> set (map c_key (web_skyling_config s))
          then (Inr (), s\<lparr>web_skyling_config :=
                  map (\<lambda>r. if c_key r = k' then r\<lparr>c_value := v\<rparr> else r) (web_skyling_config s)\<rparr>)
          else (Inr (), s\<lparr>web_skyling_config :=
                  web_skyling_config s @ [\<lparr>c_key = k', c_value = v\<rparr>]\<rparr>))"

text \<open>
  \<^verbatim>\<open>nextval\<close> of the sequence behind \<^verbatim>\<open>id SERIAL\<close>. The sequence stops at the largest
  32-bit integer: once it has issued 2147483647, \<^verbatim>\<open>nextval\<close> raises an error (SQLSTATE
  2200H) and so does every later \<^verbatim>\<open>INSERT\<close> into the templates table. PostgreSQL
  evaluates the column default before it checks a constraint or a conflict, and never
  gives a value back, so an \<^verbatim>\<open>INSERT\<close> that passes binding advances the sequence, also
  one that ends in an update, in nothing, or in a constraint error.
\<close>

definition nextval :: "db \<Rightarrow> db_error + db" where
  "nextval s =
     (if web_skyling_templates_id_seq s \<ge> 2147483647 then Inl SequenceLimitExceeded
      else Inr (s\<lparr>web_skyling_templates_id_seq := Suc (web_skyling_templates_id_seq s)\<rparr>))"

text \<open>
  \<^verbatim>\<open>INSERT INTO web_skyling_templates (name, data) VALUES ($1, $2)
  ON CONFLICT (name) DO UPDATE SET data = $2\<close>, run at time \<open>now\<close>.
\<close>

definition insert_template_on_conflict_update ::
  "int \<Rightarrow> string option \<Rightarrow> payload option \<Rightarrow> db \<Rightarrow> (db_error + unit) \<times> db" where
  "insert_template_on_conflict_update now n d s =
     (if \<not> text_param_ok n then (Inl CharacterNotInRepertoire, s)
      else if \<not> jsonb_param_ok d then (Inl UntranslatableCharacter, s)
      else case nextval s of
        Inl e \<Rightarrow> (Inl e, s)
      | Inr s1 \<Rightarrow>
         (case n of
            None \<Rightarrow> (Inl NotNullViolation, s1)
          | Some n' \<Rightarrow>
             (case d of
                None \<Rightarrow> (Inl NotNullViolation, s1)
              | Some d' \<Rightarrow>
                  if n' \<in> set (map t_name (web_skyling_templates s1))
                  then (Inr (), s1\<lparr>web_skyling_templates :=
                          map (\<lambda>r. if t_name r = n' then r\<lparr>t_data := d'\<rparr> else r)
                            (web_skyling_templates s1)\<rparr>)
                  else (Inr (), s1\<lparr>web_skyling_templates :=
                          web_skyling_templates s1 @
                            [\<lparr>t_id = web_skyling_templates_id_seq s1, t_name = n', t_data = d',
                              t_created_at = now\<rparr>]\<rparr>))))"

text \<open>
  \<^verbatim>\<open>INSERT INTO web_skyling_templates (name, data) VALUES ($1, $2)
  ON CONFLICT (name) DO NOTHING\<close>, the migration statement of \<^verbatim>\<open>initDB\<close>.
\<close>

definition insert_template_on_conflict_nothing ::
  "int \<Rightarrow> string option \<Rightarrow> payload option \<Rightarrow> db \<Rightarrow> (db_error + unit) \<times> db" where
  "insert_template_on_conflict_nothing now n d s =
     (if \<not> text_param_ok n then (Inl CharacterNotInRepertoire, s)
      else if \<not> jsonb_param_ok d then (Inl UntranslatableCharacter, s)
      else case nextval s of
        Inl e \<Rightarrow> (Inl e, s)
      | Inr s1 \<Rightarrow>
         (case n of
            None \<Rightarrow> (Inl NotNullViolation, s1)
          | Some n' \<Rightarrow>
             (case d of
                None \<Rightarrow> (Inl NotNullViolation, s1)
              | Some d' \<Rightarrow>
                  if n' \<in> set (map t_name (web_skyling_templates s1)) then (Inr (), s1)
                  else (Inr (), s1\<lparr>web_skyling_templates :=
                          web_skyling_templates s1 @
                            [\<lparr>t_id = web_skyling_templates_id_seq s1, t_name = n', t_data = d',
                              t_created_at = now\<rparr>]\<rparr>))))"

text \<open>\<^verbatim>\<open>SELECT * FROM web_skyling_templates WHERE name = $1\<close>; no row has a \<^verbatim>\<open>NULL\<close> name.\<close>

definition select_template_where_name ::
  "string option \<Rightarrow> db \<Rightarrow> (db_error + template_row list) \<times> db" where
  "select_template_where_name n s =
     (if \<not> text_param_ok n then (Inl CharacterNotInRepertoire, s)
      else (Inr (filter (\<lambda>r. Some (t_name r) = n) (web_skyling_templates s)), s))"

text \<open>
  \<^verbatim>\<open>UPDATE web_skyling_templates SET name = $1, data = $2 WHERE name = $3\<close>. The three
  parameters are checked at binding. Then, with no row named \<open>$3\<close>, nothing is checked
  and nothing changes; otherwise \<^verbatim>\<open>NOT NULL\<close> rejects a \<^verbatim>\<open>NULL\<close> name or payload, and
  \<^verbatim>\<open>UNIQUE\<close> rejects a new name that another row holds.
\<close>

definition update_template_where_name ::
  "string option \<Rightarrow> payload option \<Rightarrow> string \<Rightarrow> db \<Rightarrow> (db_error + unit) \<times> db" where
  "update_template_where_name n d old s =
     (if \<not> (text_param_ok n \<and> text_ok old) then (Inl CharacterNotInRepertoire, s)
      else if \<not> jsonb_param_ok d then (Inl UntranslatableCharacter, s)
      else if old \<notin> set (map t_name (web_skyling_templates s)) then (Inr (), s)
      else case n of
        None \<Rightarrow> (Inl NotNullViolation, s)
      | Some n' \<Rightarrow>
         (case d of
            None \<Rightarrow> (Inl NotNullViolation, s)
          | Some d' \<Rightarrow>
              if n' \<noteq> old \<and> n' \<in> set (map t_name (web_skyling_templates s))
              then (Inl UniqueViolation, s)
              else (Inr (), s\<lparr>web_skyling_templates :=
                      map (\<lambda>r. if t_name r = old then r\<lparr>t_name := n', t_data := d'\<rparr> else r)
                        (web_skyling_templates s)\<rparr>)))"

text \<open>\<^verbatim>\<open>DELETE FROM web_skyling_templates WHERE name = $1\<close>\<close>

definition delete_template_where_name ::
  "string \<Rightarrow> db \<Rightarrow> (db_error + unit) \<times> db" where
  "delete_template_where_name n s =
     (if \<not> text_ok n then (Inl CharacterNotInRepertoire, s)
      else (Inr (), s\<lparr>web_skyling_templates :=
                  filter (\<lambda>r. t_name r \<noteq> n) (web_skyling_templates s)\<rparr>))"

text \<open>
  \<^verbatim>\<open>SELECT * FROM web_skyling_templates ORDER BY created_at DESC\<close>. SQL leaves the order of
  rows with equal \<^verbatim>\<open>created_at\<close> open; the model keeps them in table order (a stable sort),
  and no theorem below depends on that choice.
\<close>

definition select_templates_order_by_created_at_desc ::
  "db \<Rightarrow> (db_error + template_row list) \<times> db" where
  "select_templates_order_by_created_at_desc s =
     (Inr (sort_key (\<lambda>r. - t_created_at r) (web_skyling_templates s)), s)"

subsection \<open>The store as the process meets it\<close>

text \<open>
  Each time a handler awaits the pool, the store is in one of three conditions.
  \<open>Served\<close>: the statement runs. \<open>Rejected\<close>: the promise rejects before the statement
  takes effect (no connection, a timeout, a connection that breaks, a limit of the
  server), and the handler's \<^verbatim>\<open>catch\<close> runs. \<open>IdleClientError\<close>: the connection of a client that sits idle in the
  pool breaks, as when the server shuts down; the pool then emits \<^verbatim>\<open>error\<close>, and since
  \<^verbatim>\<open>server.js\<close> registers no listener for it (no \<^verbatim>\<open>pool.on('error', ...)\<close>), Node raises
  the event as an uncaught exception and the process ends. The request gets no answer:
  the outcome of the handler is \<open>None\<close>. A handler takes the conditions it will meet as
  a function of the position of the await in its run.
\<close>

datatype store_event = Served | Rejected | IdleClientError

definition pool_query ::
  "store_event \<Rightarrow> (db \<Rightarrow> (db_error + 'a) \<times> db) \<Rightarrow> db \<Rightarrow> (db_error + 'a) option \<times> db" where
  "pool_query e stmt s =
     (case e of
        Served \<Rightarrow> (Some (fst (stmt s)), snd (stmt s))
      | Rejected \<Rightarrow> (Some (Inl ConnectionError), s)
      | IdleClientError \<Rightarrow> (None, s))"

text \<open>Every statement is served.\<close>

definition served :: "nat \<Rightarrow> store_event" where
  "served i = Served"

subsection \<open>The handlers\<close>

text \<open>
  The outcome of a handler is \<open>None\<close> when the process ended, and otherwise the error
  kind of its HTTP status or the JSON it sends: 400 \<^verbatim>\<open>Name is required\<close> /
  \<^verbatim>\<open>Key is required\<close> is \<open>ValidationError\<close>, 404 is \<open>NotFound\<close>, 400
  \<^verbatim>\<open>Ya existe una plantilla con ese nombre.\<close> is \<open>NameCollision\<close>, and the 500 of every
  \<^verbatim>\<open>catch\<close> is \<open>StoreUnavailable\<close>.
\<close>

datatype error = ValidationError | NotFound | NameCollision | StoreUnavailable

text \<open>\<^verbatim>\<open>GET /api/templates\<close> (List)\<close>

definition list_templates ::
  "(nat \<Rightarrow> store_event) \<Rightarrow> db \<Rightarrow> (error + template_row list) option \<times> db" where
  "list_templates ev s =
     (case pool_query (ev 0) select_templates_order_by_created_at_desc s of
        (None, s1) \<Rightarrow> (None, s1)
      | (Some (Inl e), s1) \<Rightarrow> (Some (Inl StoreUnavailable), s1)
      | (Some (Inr rows), s1) \<Rightarrow> (Some (Inr rows), s1))"

text \<open>\<^verbatim>\<open>POST /api/templates\<close> (Upsert)\<close>

definition upsert ::
  "(nat \<Rightarrow> store_event) \<Rightarrow> int \<Rightarrow> jsval \<Rightarrow> payload option \<Rightarrow> db \<Rightarrow>
     (error + template_row list) option \<times> db" where
  "upsert ev now name_field data_field s =
     (if \<not> truthy name_field then (Some (Inl ValidationError), s)
      else
        (case pool_query (ev 0)
                (insert_template_on_conflict_update now (prepareValue name_field) data_field) s of
           (None, s1) \<Rightarrow> (None, s1)
         | (Some (Inl e), s1) \<Rightarrow> (Some (Inl StoreUnavailable), s1)
         | (Some (Inr u), s1) \<Rightarrow>
            (case pool_query (ev 1) select_templates_order_by_created_at_desc s1 of
               (None, s2) \<Rightarrow> (None, s2)
             | (Some (Inl e), s2) \<Rightarrow> (Some (Inl StoreUnavailable), s2)
             | (Some (Inr rows), s2) \<Rightarrow> (Some (Inr rows), s2))))"

text \<open>
  The inner \<^verbatim>\<open>catch\<close> of Rename: \<^verbatim>\<open>await client.query('ROLLBACK'); throw e\<close>. Whether
  the \<^verbatim>\<open>ROLLBACK\<close> is served or rejects in its turn, an exception reaches the outer
  \<^verbatim>\<open>catch\<close>, which answers 500.
\<close>

definition catch_rollback :: "store_event \<Rightarrow> db \<Rightarrow> (error + 'a) option \<times> db" where
  "catch_rollback e s =
     (case e of
        IdleClientError \<Rightarrow> (None, s)
      | _ \<Rightarrow> (Some (Inl StoreUnavailable), s))"

text \<open>
  \<^verbatim>\<open>await client.query('ROLLBACK'); return res.status(...)\<close> inside the \<^verbatim>\<open>try\<close>: the answer
  \<open>a\<close> is sent when the \<^verbatim>\<open>ROLLBACK\<close> is served; when it rejects, the inner \<^verbatim>\<open>catch\<close>
  runs with the next condition.
\<close>

definition rollback_return ::
  "(nat \<Rightarrow> store_event) \<Rightarrow> nat \<Rightarrow> error \<Rightarrow> db \<Rightarrow> (error + 'a) option \<times> db" where
  "rollback_return ev i a s =
     (case ev i of
        Served \<Rightarrow> (Some (Inl a), s)
      | Rejected \<Rightarrow> catch_rollback (ev (i + 1)) s
      | IdleClientError \<Rightarrow> (None, s))"

text \<open>
  \<^verbatim>\<open>PUT /api/templates/:oldName\<close> (Rename). \<^verbatim>\<open>oldName\<close> is a path parameter, always a
  string. The awaits are, in order: \<^verbatim>\<open>pool.connect()\<close>, \<^verbatim>\<open>BEGIN\<close>, the existence
  \<^verbatim>\<open>SELECT\<close>, the collision \<^verbatim>\<open>SELECT\<close> when the new name is non-empty and differs,
  \<^verbatim>\<open>UPDATE\<close>, \<^verbatim>\<open>COMMIT\<close> and the final \<^verbatim>\<open>SELECT\<close>. A transaction that does not
  reach a served \<^verbatim>\<open>COMMIT\<close> leaves the tables as they were at \<^verbatim>\<open>BEGIN\<close>, the
  database \<open>s0\<close> below. The handler is given in the three parts that its comments mark.

  Third part, \<^verbatim>\<open>// Update\<close>, to the end of the \<^verbatim>\<open>try\<close>; \<open>i\<close> is the position of the
  \<^verbatim>\<open>UPDATE\<close> among the awaits.
\<close>

definition rename_update ::
  "(nat \<Rightarrow> store_event) \<Rightarrow> nat \<Rightarrow> string \<Rightarrow> jsval \<Rightarrow> payload option \<Rightarrow> db \<Rightarrow> db \<Rightarrow>
     (error + template_row list) option \<times> db" where
  "rename_update ev i oldName newName data_field s0 s =
     (let finalName = js_or newName (Str oldName) in
      (case pool_query (ev i)
              (update_template_where_name (prepareValue finalName) data_field oldName) s of
         (None, s1) \<Rightarrow> (None, s0)
       | (Some (Inl e), s1) \<Rightarrow> catch_rollback (ev (i + 1)) s0
       | (Some (Inr u), s1) \<Rightarrow>
          (case ev (i + 1) of
             IdleClientError \<Rightarrow> (None, s0)
           | Rejected \<Rightarrow> catch_rollback (ev (i + 2)) s0
           | Served \<Rightarrow>
              (case pool_query (ev (i + 2)) select_templates_order_by_created_at_desc s1 of
                 (None, s2) \<Rightarrow> (None, s2)
               | (Some (Inl e), s2) \<Rightarrow> catch_rollback (ev (i + 3)) s2
               | (Some (Inr rows), s2) \<Rightarrow> (Some (Inr rows), s2)))))"

text \<open>Second part, \<^verbatim>\<open>// If renaming, check content collision\<close>.\<close>

definition rename_check_collision ::
  "(nat \<Rightarrow> store_event) \<Rightarrow> string \<Rightarrow> jsval \<Rightarrow> payload option \<Rightarrow> db \<Rightarrow> db \<Rightarrow>
     (error + template_row list) option \<times> db" where
  "rename_check_collision ev oldName newName data_field s0 s =
     (if truthy newName \<and> newName \<noteq> Str oldName
      then
        (case pool_query (ev 3) (select_template_where_name (prepareValue newName)) s of
           (None, s1) \<Rightarrow> (None, s0)
         | (Some (Inl e), s1) \<Rightarrow> catch_rollback (ev 4) s0
         | (Some (Inr collision), s1) \<Rightarrow>
            (if length collision > 0 then rollback_return ev 4 NameCollision s0
             else rename_update ev 4 oldName newName data_field s0 s1))
      else rename_update ev 3 oldName newName data_field s0 s)"

text \<open>First part: \<^verbatim>\<open>pool.connect()\<close>, \<^verbatim>\<open>BEGIN\<close> and \<^verbatim>\<open>// Check existence\<close>.\<close>

definition rename ::
  "(nat \<Rightarrow> store_event) \<Rightarrow> string \<Rightarrow> jsval \<Rightarrow> payload option \<Rightarrow> db \<Rightarrow>
     (error + template_row list) option \<times> db" where
  "rename ev oldName newName data_field s =
     (case ev 0 of
        IdleClientError \<Rightarrow> (None, s)
      | Rejected \<Rightarrow> (Some (Inl StoreUnavailable), s)
      | Served \<Rightarrow>
         (case ev 1 of
            IdleClientError \<Rightarrow> (None, s)
          | Rejected \<Rightarrow> catch_rollback (ev 2) s
          | Served \<Rightarrow>
             (case pool_query (ev 2) (select_template_where_name (Some oldName)) s of
                (None, s1) \<Rightarrow> (None, s)
              | (Some (Inl e), s1) \<Rightarrow> catch_rollback (ev 3) s
              | (Some (Inr check), s1) \<Rightarrow>
                 (if length check = 0 then rollback_return ev 3 NotFound s
                  else rename_check_collision ev oldName newName data_field s s1))))"

text \<open>\<^verbatim>\<open>DELETE /api/templates/:name\<close> (Delete); \<^verbatim>\<open>name\<close> is a path parameter.\<close>

definition delete_template ::
  "(nat \<Rightarrow> store_event) \<Rightarrow> string \<Rightarrow> db \<Rightarrow> (error + template_row list) option \<times> db" where
  "delete_template ev n s =
     (case pool_query (ev 0) (delete_template_where_name n) s of
        (None, s1) \<Rightarrow> (None, s1)
      | (Some (Inl e), s1) \<Rightarrow> (Some (Inl StoreUnavailable), s1)
      | (Some (Inr u), s1) \<Rightarrow>
         (case pool_query (ev 1) select_templates_order_by_created_at_desc s1 of
            (None, s2) \<Rightarrow> (None, s2)
          | (Some (Inl e), s2) \<Rightarrow> (Some (Inl StoreUnavailable), s2)
          | (Some (Inr rows), s2) \<Rightarrow> (Some (Inr rows), s2)))"

text \<open>
  \<^verbatim>\<open>GET /api/defaults\<close> (GetConfig) copies the rows into a fresh object literal,
  \<^verbatim>\<open>config[row.key] = row.value\<close>, and sends it as JSON. A JavaScript object is its own
  properties and its prototype, which for \<^verbatim>\<open>{}\<close> is \<^verbatim>\<open>Object.prototype\<close>. Assignment
  creates or overwrites an own property, except for the key \<^verbatim>\<open>__proto__\<close> while the
  prototype is \<^verbatim>\<open>Object.prototype\<close>: that key is an accessor inherited from the prototype,
  whose setter replaces the prototype when the value is \<^verbatim>\<open>null\<close>, ignores a string, and
  creates no own property. \<^verbatim>\<open>res.json\<close> serialises the own properties, a \<^verbatim>\<open>null\<close> value
  as \<^verbatim>\<open>null\<close>.
\<close>

record js_object =
  has_object_prototype :: bool
  own :: "string \<rightharpoonup> string option"

definition object_literal :: js_object where
  "object_literal = \<lparr>has_object_prototype = True, own = Map.empty\<rparr>"

definition js_assign :: "js_object \<Rightarrow> string \<Rightarrow> string option \<Rightarrow> js_object" where
  "js_assign obj k v =
     (if k = ''__proto__'' \<and> has_object_prototype obj
      then (case v of None \<Rightarrow> obj\<lparr>has_object_prototype := False\<rparr> | Some x \<Rightarrow> obj)
      else obj\<lparr>own := (own obj)(k \<mapsto> v)\<rparr>)"

definition get_config ::
  "(nat \<Rightarrow> store_event) \<Rightarrow> db \<Rightarrow> (error + (string \<rightharpoonup> string option)) option \<times> db" where
  "get_config ev s =
     (case pool_query (ev 0) select_config s of
        (None, s1) \<Rightarrow> (None, s1)
      | (Some (Inl e), s1) \<Rightarrow> (Some (Inl StoreUnavailable), s1)
      | (Some (Inr rows), s1) \<Rightarrow>
          (Some (Inr (own (foldl (\<lambda>config row. js_assign config (c_key row) (c_value row))
                            object_literal rows))), s1))"

text \<open>\<^verbatim>\<open>PUT /api/config\<close> (SetConfig); the response echoes the key and the value.\<close>

definition set_config ::
  "(nat \<Rightarrow> store_event) \<Rightarrow> jsval \<Rightarrow> jsval \<Rightarrow> db \<Rightarrow> (error + jsval \<times> jsval) option \<times> db" where
  "set_config ev key_field value_field s =
     (if \<not> truthy key_field then (Some (Inl ValidationError), s)
      else
        (case pool_query (ev 0)
                (insert_config_on_conflict_update (prepareValue key_field)
                   (prepareValue value_field)) s of
           (None, s1) \<Rightarrow> (None, s1)
         | (Some (Inl e), s1) \<Rightarrow> (Some (Inl StoreUnavailable), s1)
         | (Some (Inr u), s1) \<Rightarrow> (Some (Inr (key_field, value_field)), s1)))"

subsection \<open>Reachable databases\<close>

text \<open>
  \<^verbatim>\<open>initDB\<close> creates the tables empty and is not awaited, so its seeding and migration
  inserts interleave with requests. A database is reachable when statements of \<^verbatim>\<open>initDB\<close>
  and handler calls, under any conditions of the store, lead to it from the empty tables.
\<close>

inductive reachable :: "db \<Rightarrow> bool" where
  r_init: "reachable empty_db"
| r_seed: "reachable s \<Longrightarrow> reachable (snd (pool_query e (insert_config k v) s))"
| r_migrate:
    "reachable s \<Longrightarrow>
     reachable (snd (pool_query e (insert_template_on_conflict_nothing now n d) s))"
| r_list: "reachable s \<Longrightarrow> reachable (snd (list_templates ev s))"
| r_upsert: "reachable s \<Longrightarrow> reachable (snd (upsert ev now nm d s))"
| r_rename: "reachable s \<Longrightarrow> reachable (snd (rename ev old new d s))"
| r_delete: "reachable s \<Longrightarrow> reachable (snd (delete_template ev n s))"
| r_get_config: "reachable s \<Longrightarrow> reachable (snd (get_config ev s))"
| r_set_config: "reachable s \<Longrightarrow> reachable (snd (set_config ev k v s))"

text \<open>The uniqueness invariant of the spec, and what the sequence adds to it.\<close>

definition unique_names :: "db \<Rightarrow> bool" where
  "unique_names s = distinct (map t_name (web_skyling_templates s))"

definition unique_keys :: "db \<Rightarrow> bool" where
  "unique_keys s = distinct (map c_key (web_skyling_config s))"

definition ids_issued :: "db \<Rightarrow> bool" where
  "ids_issued s =
     (distinct (map t_id (web_skyling_templates s)) \<and>
      list_all (\<lambda>r. t_id r \<le> web_skyling_templates_id_seq s) (web_skyling_templates s))"

definition store_invariant :: "db \<Rightarrow> bool" where
  "store_invariant s = (unique_names s \<and> unique_keys s \<and> ids_issued s)"

subsection \<open>A database used in the examples\<close>

text \<open>
  Two templates, saved at times 10 and 20, and one configuration entry; \<open>p1\<close>, \<open>p2\<close>
  and \<open>p3\<close> are payloads.
\<close>

definition p1 :: payload where
  "p1 = \<lparr>structure = ''S1'', output = ''O1'', limitations = ''L1''\<rparr>"

definition p2 :: payload where
  "p2 = \<lparr>structure = ''S2'', output = ''O2'', limitations = ''L2''\<rparr>"

definition p3 :: payload where
  "p3 = \<lparr>structure = ''S3'', output = ''O3'', limitations = ''L3''\<rparr>"

definition landing_ab :: db where
  "landing_ab =
     \<lparr>web_skyling_config = [\<lparr>c_key = ''systemPrompt'', c_value = Some ''X''\<rparr>],
      web_skyling_templates =
        [\<lparr>t_id = 1, t_name = ''Landing A'', t_data = p1, t_created_at = 10\<rparr>,
         \<lparr>t_id = 2, t_name = ''Landing B'', t_data = p2, t_created_at = 20\<rparr>],
      web_skyling_templates_id_seq = 2\<rparr>"

section \<open>Properties\<close>

subsection \<open>Row updates\<close>

lemma map_name_set_data:
  "map t_name (map (\<lambda>r. if t_name r = n then r\<lparr>t_data := d\<rparr> else r) rows) = map t_name rows"
  by (induction rows) auto

lemma map_id_set_data:
  "map t_id (map (\<lambda>r. if t_name r = n then r\<lparr>t_data := d\<rparr> else r) rows) = map t_id rows"
  by (induction rows) auto

lemma map_key_set_value:
  "map c_key (map (\<lambda>r. if c_key r = k then r\<lparr>c_value := v\<rparr> else r) rows) = map c_key rows"
  by (induction rows) auto

lemma map_id_set_name:
  "map t_id (map (\<lambda>r. if t_name r = old then r\<lparr>t_name := n, t_data := d\<rparr> else r) rows)
     = map t_id rows"
  by (induction rows) auto

lemma set_names_set_name:
  "set (map t_name (map (\<lambda>r. if t_name r = old then r\<lparr>t_name := n, t_data := d\<rparr> else r) rows))
     \<subseteq> insert n (set (map t_name rows))"
  by (induction rows) auto

lemma distinct_names_set_name:
  "distinct (map t_name rows) \<Longrightarrow> n = old \<or> n \<notin> set (map t_name rows) \<Longrightarrow>
   distinct (map t_name (map (\<lambda>r. if t_name r = old then r\<lparr>t_name := n, t_data := d\<rparr> else r) rows))"
proof (induction rows)
  case Nil
  then show ?case by simp
next
  case (Cons r rows)
  let ?f = "\<lambda>r. if t_name r = old then r\<lparr>t_name := n, t_data := d\<rparr> else r"
  have tail: "distinct (map t_name (map ?f rows))"
    using Cons by auto
  have "t_name (?f r) \<notin> set (map t_name (map ?f rows))"
  proof (cases "t_name r = old")
    case True
    then have "old \<notin> set (map t_name rows)" using Cons.prems(1) by auto
    then have same: "map ?f rows = rows" by (induction rows) auto
    have "n \<notin> set (map t_name rows)"
      using Cons.prems(2) \<open>old \<notin> set (map t_name rows)\<close> by auto
    then show ?thesis using True same by simp
  next
    case False
    have "t_name r \<noteq> n" using False Cons.prems(2) by auto
    moreover have "t_name r \<notin> set (map t_name rows)" using Cons.prems(1) by auto
    ultimately show ?thesis
      using set_names_set_name[where old=old and n=n and d=d and rows=rows] False by auto
  qed
  then show ?case using tail by simp
qed

subsection \<open>The handlers when every statement is served\<close>

lemma pool_query_served [simp]:
  "pool_query (served i) stmt s = (Some (fst (stmt s)), snd (stmt s))"
  by (simp add: pool_query_def served_def)

lemma select_where_name_empty:
  "(filter (\<lambda>r. t_name r = n) rows = []) = (n \<notin> t_name ` set rows)"
  by (auto simp: filter_empty_conv)

lemma insert_update_ok:
  assumes "text_ok n" and "jsonb_ok d" and "web_skyling_templates_id_seq s < 2147483647"
  shows "insert_template_on_conflict_update now (Some n) (Some d) s =
     (Inr (),
      s\<lparr>web_skyling_templates_id_seq := Suc (web_skyling_templates_id_seq s),
        web_skyling_templates :=
          (if n \<in> set (map t_name (web_skyling_templates s))
           then map (\<lambda>r. if t_name r = n then r\<lparr>t_data := d\<rparr> else r) (web_skyling_templates s)
           else web_skyling_templates s @
                  [\<lparr>t_id = Suc (web_skyling_templates_id_seq s), t_name = n, t_data = d,
                    t_created_at = now\<rparr>])\<rparr>)"
  using assms by (simp add: insert_template_on_conflict_update_def nextval_def)

lemma upsert_served:
  assumes "n \<noteq> []" and "text_ok n" and "jsonb_ok d"
    and "web_skyling_templates_id_seq s < 2147483647"
  shows "upsert served now (Str n) (Some d) s =
     (Some (Inr (sort_key (\<lambda>r. - t_created_at r)
              (if n \<in> set (map t_name (web_skyling_templates s))
               then map (\<lambda>r. if t_name r = n then r\<lparr>t_data := d\<rparr> else r)
                      (web_skyling_templates s)
               else web_skyling_templates s @
                      [\<lparr>t_id = Suc (web_skyling_templates_id_seq s), t_name = n, t_data = d,
                        t_created_at = now\<rparr>]))),
      s\<lparr>web_skyling_templates_id_seq := Suc (web_skyling_templates_id_seq s),
        web_skyling_templates :=
          (if n \<in> set (map t_name (web_skyling_templates s))
           then map (\<lambda>r. if t_name r = n then r\<lparr>t_data := d\<rparr> else r) (web_skyling_templates s)
           else web_skyling_templates s @
                  [\<lparr>t_id = Suc (web_skyling_templates_id_seq s), t_name = n, t_data = d,
                    t_created_at = now\<rparr>])\<rparr>)"
  using assms(1)
  by (simp add: upsert_def insert_update_ok[OF assms(2,3,4)]
      select_templates_order_by_created_at_desc_def)



lemma rename_to:
  "text_ok old \<Longrightarrow> text_ok n \<Longrightarrow> jsonb_ok d \<Longrightarrow>
   old \<in> set (map t_name (web_skyling_templates s)) \<Longrightarrow> n \<noteq> [] \<Longrightarrow>
   n = old \<or> n \<notin> set (map t_name (web_skyling_templates s)) \<Longrightarrow>
   rename served old (Str n) (Some d) s =
     (Some (Inr (sort_key (\<lambda>r. - t_created_at r)
             (map (\<lambda>r. if t_name r = old then r\<lparr>t_name := n, t_data := d\<rparr> else r)
                (web_skyling_templates s)))),
      s\<lparr>web_skyling_templates :=
           map (\<lambda>r. if t_name r = old then r\<lparr>t_name := n, t_data := d\<rparr> else r)
             (web_skyling_templates s)\<rparr>)"
  by (auto simp: select_where_name_empty rename_def rename_check_collision_def rename_update_def select_template_where_name_def js_or_def
      update_template_where_name_def select_templates_order_by_created_at_desc_def
      served_def pool_query_def Let_def)

lemma rename_keep:
  "text_ok old \<Longrightarrow> jsonb_ok d \<Longrightarrow>
   old \<in> set (map t_name (web_skyling_templates s)) \<Longrightarrow> \<not> truthy new \<Longrightarrow>
   rename served old new (Some d) s =
     (Some (Inr (sort_key (\<lambda>r. - t_created_at r)
             (map (\<lambda>r. if t_name r = old then r\<lparr>t_name := old, t_data := d\<rparr> else r)
                (web_skyling_templates s)))),
      s\<lparr>web_skyling_templates :=
           map (\<lambda>r. if t_name r = old then r\<lparr>t_name := old, t_data := d\<rparr> else r)
             (web_skyling_templates s)\<rparr>)"
  by (auto simp: select_where_name_empty rename_def rename_check_collision_def rename_update_def select_template_where_name_def js_or_def
      update_template_where_name_def select_templates_order_by_created_at_desc_def
      served_def pool_query_def Let_def)

lemma rename_nul_old:
  "\<not> text_ok old \<Longrightarrow> rename served old new d s = (Some (Inl StoreUnavailable), s)"
  by (simp add: rename_def rename_check_collision_def rename_update_def select_template_where_name_def catch_rollback_def served_def
      pool_query_def)

subsection \<open>Rename: failures\<close>



subsection \<open>Rename: success\<close>

lemma catch_rollback_not_ok [simp]: "catch_rollback e s \<noteq> (Some (Inr rows), s')"
  by (simp add: catch_rollback_def split: store_event.splits)

lemma rollback_return_not_ok [simp]: "rollback_return ev i a s \<noteq> (Some (Inr rows), s')"
  by (simp add: rollback_return_def split: store_event.splits)

lemma update_template_ok:
  assumes "update_template_where_name n d old s = (Inr u, s')"
    and "old \<in> t_name ` set (web_skyling_templates s)"
  shows "text_ok old \<and>
    (\<exists>d' fin. d = Some d' \<and> jsonb_ok d' \<and> n = Some fin \<and> text_ok fin \<and>
       (fin = old \<or> fin \<notin> t_name ` set (web_skyling_templates s)) \<and>
       s' = s\<lparr>web_skyling_templates :=
              map (\<lambda>r. if t_name r = old then r\<lparr>t_name := fin, t_data := d'\<rparr> else r)
                (web_skyling_templates s)\<rparr>)"
  using assms
  by (auto simp: update_template_where_name_def split: if_splits option.splits)

lemma rename_update_success:
  assumes "rename_update ev i old new d s0 s = (Some (Inr rows), s')"
  shows "\<exists>u. update_template_where_name (prepareValue (js_or new (Str old))) d old s = (Inr u, s')
           \<and> rows = sort_key (\<lambda>r. - t_created_at r) (web_skyling_templates s')"
proof (cases "update_template_where_name (prepareValue (js_or new (Str old))) d old s")
  case (Pair res s1)
  then show ?thesis
    using assms
    by (auto simp: rename_update_def pool_query_def Let_def
        select_templates_order_by_created_at_desc_def
        split: store_event.splits option.splits sum.splits)
qed

lemma rename_check_collision_success:
  assumes "rename_check_collision ev old new d s0 s = (Some (Inr rows), s')"
  shows "(\<exists>u. update_template_where_name (prepareValue (js_or new (Str old))) d old s
               = (Inr u, s')) \<and>
         rows = sort_key (\<lambda>r. - t_created_at r) (web_skyling_templates s') \<and>
         (truthy new \<and> new \<noteq> Str old \<longrightarrow>
            (\<forall>n. new = Str n \<longrightarrow> n \<notin> t_name ` set (web_skyling_templates s)))"
proof (cases "truthy new \<and> new \<noteq> Str old")
  case False
  then show ?thesis
    using assms rename_update_success[of ev 3 old new d s0 s rows s']
    by (auto simp: rename_check_collision_def)
next
  case True
  then obtain n where n: "new = Str n" by (cases new) auto
  from assms True n have sel: "text_ok n"
    and free: "filter (\<lambda>r. t_name r = n) (web_skyling_templates s) = []"
    and run: "rename_update ev 4 old new d s0 s = (Some (Inr rows), s')"
    by (auto simp: rename_check_collision_def pool_query_def select_template_where_name_def
        split: store_event.splits if_splits)
  show ?thesis
    using rename_update_success[OF run] free n
    by (auto simp: select_where_name_empty)
qed

lemma rename_success:
  assumes "rename ev old new d s = (Some (Inr rows), s')"
  shows "old \<in> t_name ` set (web_skyling_templates s) \<and> text_ok old \<and>
    (\<exists>d' fin. d = Some d' \<and> jsonb_ok d' \<and> prepareValue (js_or new (Str old)) = Some fin \<and>
       text_ok fin \<and> (fin = old \<or> fin \<notin> t_name ` set (web_skyling_templates s)) \<and>
       s' = s\<lparr>web_skyling_templates :=
              map (\<lambda>r. if t_name r = old then r\<lparr>t_name := fin, t_data := d'\<rparr> else r)
                (web_skyling_templates s)\<rparr> \<and>
       rows = sort_key (\<lambda>r. - t_created_at r) (web_skyling_templates s'))"
proof -
  from assms have found: "old \<in> t_name ` set (web_skyling_templates s)"
    and run: "rename_check_collision ev old new d s s = (Some (Inr rows), s')"
    by (auto simp: rename_def pool_query_def select_template_where_name_def
        select_where_name_empty
        split: store_event.splits if_splits)
  from rename_check_collision_success[OF run] obtain u where
    upd: "update_template_where_name (prepareValue (js_or new (Str old))) d old s = (Inr u, s')"
    and rows: "rows = sort_key (\<lambda>r. - t_created_at r) (web_skyling_templates s')"
    by blast
  show ?thesis
    using update_template_ok[OF upd found] found rows by auto
qed

lemma sorted_desc_sort_key:
  "sorted_wrt (\<lambda>a b. t_created_at b \<le> t_created_at a)
     (sort_key (\<lambda>r. - t_created_at r) rows)"
proof -
  have "sorted (map (\<lambda>r. - t_created_at r) (sort_key (\<lambda>r. - t_created_at r) rows))"
    by (rule sorted_sort_key)
  then show ?thesis by (simp add: sorted_map)
qed

text \<open>
  Claim C2. Let \<open>r\<close> be a template named \<open>oldName\<close> and let Rename succeed, whatever
  the conditions of the store were. Then a payload was given, and the database after the
  call holds a row \<open>r'\<close> with the id and the creation time of \<open>r\<close>, with the given
  payload, and named \<open>newName\<close> when \<open>newName\<close> is a non-empty string, \<open>oldName\<close> when it
  is empty, \<^verbatim>\<open>null\<close> or missing. Every template with another name is still there and the
  number of templates is the same. The list returned holds \<open>r'\<close>, holds exactly the rows
  of the new table, and is in descending order of creation time.
\<close>

theorem rename_success_effect:
  assumes "rename ev old new d s = (Some (Inr rows), s')"
    and "r \<in> set (web_skyling_templates s)"
    and "t_name r = old"
  shows "\<exists>d' r'. d = Some d' \<and> r' \<in> set (web_skyling_templates s') \<and> r' \<in> set rows \<and>
           t_name r' = (case new of Str n \<Rightarrow> if n = [] then old else n | _ \<Rightarrow> old) \<and>
           t_data r' = d' \<and> t_created_at r' = t_created_at r \<and> t_id r' = t_id r \<and>
           (\<forall>q \<in> set (web_skyling_templates s). t_name q \<noteq> old \<longrightarrow>
                q \<in> set (web_skyling_templates s') \<and> q \<in> set rows) \<and>
           length (web_skyling_templates s') = length (web_skyling_templates s) \<and>
           mset rows = mset (web_skyling_templates s') \<and>
           sorted_wrt (\<lambda>a b. t_created_at b \<le> t_created_at a) rows"
proof -
  from rename_success[OF assms(1)] obtain d' fin where
    d: "d = Some d'" and
    fin: "prepareValue (js_or new (Str old)) = Some fin" and
    s': "s' = s\<lparr>web_skyling_templates :=
              map (\<lambda>r. if t_name r = old then r\<lparr>t_name := fin, t_data := d'\<rparr> else r)
                (web_skyling_templates s)\<rparr>" and
    rows: "rows = sort_key (\<lambda>r. - t_created_at r) (web_skyling_templates s')"
    by blast
  let ?f = "\<lambda>r. if t_name r = old then r\<lparr>t_name := fin, t_data := d'\<rparr> else r"
  have fin_eq: "fin = (case new of Str n \<Rightarrow> if n = [] then old else n | _ \<Rightarrow> old)"
    using fin by (cases new) (auto simp: js_or_def split: if_splits)
  have set_rows: "set rows = set (web_skyling_templates s')"
    by (simp add: rows)
  have mem: "?f r \<in> set (web_skyling_templates s')"
    using assms(2) s' by simp
  have others: "\<forall>q \<in> set (web_skyling_templates s). t_name q \<noteq> old \<longrightarrow>
      q \<in> set (web_skyling_templates s') \<and> q \<in> set rows"
  proof (intro ballI impI)
    fix q assume "q \<in> set (web_skyling_templates s)" "t_name q \<noteq> old"
    then have "?f q \<in> set (web_skyling_templates s')" "?f q = q"
      using s' by simp_all
    then show "q \<in> set (web_skyling_templates s') \<and> q \<in> set rows"
      using set_rows by simp
  qed
  have len: "length (web_skyling_templates s') = length (web_skyling_templates s)"
    using s' by simp
  have perm: "mset rows = mset (web_skyling_templates s')"
    by (simp add: rows)
  have ord: "sorted_wrt (\<lambda>a b. t_created_at b \<le> t_created_at a) rows"
    unfolding rows by (rule sorted_desc_sort_key)
  show ?thesis
    using d mem others len perm ord fin_eq assms(3) set_rows
    by (intro exI[of _ d'] exI[of _ "?f r"]) simp
qed

theorem rename_success_effect_witness:
  "\<exists>rows s'. rename served ''Landing A'' (Str ''Landing C'') (Some p3) landing_ab
        = (Some (Inr rows), s') \<and>
     (\<exists>r' \<in> set rows.
        t_name r' = ''Landing C'' \<and> t_data r' = p3 \<and> t_created_at r' = 10 \<and> t_id r' = 1)"
proof -
  obtain rows s' where
    run: "rename served ''Landing A'' (Str ''Landing C'') (Some p3) landing_ab
            = (Some (Inr rows), s')"
    using rename_to[of "''Landing A''" "''Landing C''" p3 landing_ab]
    by (simp add: landing_ab_def text_ok_def jsonb_ok_def p3_def)
  have "\<lparr>t_id = 1, t_name = ''Landing A'', t_data = p1, t_created_at = 10\<rparr>
      \<in> set (web_skyling_templates landing_ab)"
    by (simp add: landing_ab_def)
  from rename_success_effect[OF run this] show ?thesis
    using run by auto
qed

subsection \<open>Upsert twice\<close>







subsection \<open>The uniqueness invariant\<close>

lemma list_all_le_Suc:
  "list_all (\<lambda>r. t_id r \<le> m) rows \<Longrightarrow> list_all (\<lambda>r. t_id r \<le> Suc m) rows"
  by (induction rows) auto

lemma fresh_id:
  "list_all (\<lambda>r. t_id r \<le> m) rows \<Longrightarrow> Suc m \<notin> t_id ` set rows"
  by (induction rows) auto

lemma list_all_set_data:
  "list_all (\<lambda>r. t_id r \<le> m) rows \<Longrightarrow>
   list_all (\<lambda>r. t_id r \<le> m) (map (\<lambda>r. if t_name r = n then r\<lparr>t_data := d\<rparr> else r) rows)"
  by (induction rows) auto

lemma list_all_set_name:
  "list_all (\<lambda>r. t_id r \<le> m) rows \<Longrightarrow>
   list_all (\<lambda>r. t_id r \<le> m)
     (map (\<lambda>r. if t_name r = old then r\<lparr>t_name := n, t_data := d\<rparr> else r) rows)"
  by (induction rows) auto

lemma list_all_filter_name:
  "list_all (\<lambda>r. t_id r \<le> m) rows \<Longrightarrow>
   list_all (\<lambda>r. t_id r \<le> (m::nat)) (filter (\<lambda>r. t_name r \<noteq> n) rows)"
  by (induction rows) auto

lemma inv_nextval: "store_invariant s \<Longrightarrow> nextval s = Inr s1 \<Longrightarrow> store_invariant s1"
  by (auto simp: store_invariant_def unique_names_def unique_keys_def ids_issued_def nextval_def
      list_all_le_Suc split: if_splits)

lemma nextval_fields:
  "nextval s = Inr s1 \<Longrightarrow>
   web_skyling_templates s1 = web_skyling_templates s \<and>
   web_skyling_config s1 = web_skyling_config s \<and>
   web_skyling_templates_id_seq s1 = Suc (web_skyling_templates_id_seq s)"
  by (auto simp: nextval_def split: if_splits)

lemma inv_insert_config:
  "store_invariant s \<Longrightarrow> store_invariant (snd (insert_config k v s))"
  by (auto simp: store_invariant_def unique_names_def unique_keys_def ids_issued_def
      insert_config_def split: option.splits)

lemma inv_insert_config_on_conflict_update:
  "store_invariant s \<Longrightarrow> store_invariant (snd (insert_config_on_conflict_update k v s))"
  using map_key_set_value[of _ v "web_skyling_config s"]
  by (auto simp: store_invariant_def unique_names_def unique_keys_def ids_issued_def
      insert_config_on_conflict_update_def simp del: map_map split: option.splits)

lemma inv_append_row:
  assumes "store_invariant s1" and "n \<notin> set (map t_name (web_skyling_templates s1))"
    and "list_all (\<lambda>r. t_id r \<le> m) (web_skyling_templates s1)"
    and "web_skyling_templates_id_seq s1 = Suc m"
  shows "store_invariant (s1\<lparr>web_skyling_templates :=
           web_skyling_templates s1 @
             [\<lparr>t_id = web_skyling_templates_id_seq s1, t_name = n, t_data = d,
               t_created_at = now\<rparr>]\<rparr>)"
  using assms fresh_id[OF assms(3)]
  by (simp add: store_invariant_def unique_names_def unique_keys_def ids_issued_def)

lemma inv_set_data:
  assumes "store_invariant s1"
  shows "store_invariant (s1\<lparr>web_skyling_templates :=
           map (\<lambda>r. if t_name r = n then r\<lparr>t_data := d\<rparr> else r) (web_skyling_templates s1)\<rparr>)"
  using assms list_all_set_data[of "web_skyling_templates_id_seq s1" "web_skyling_templates s1" n d]
  by (simp add: store_invariant_def unique_names_def unique_keys_def ids_issued_def
      map_name_set_data map_id_set_data del: map_map)

lemma inv_insert_template_on_conflict_update:
  assumes "store_invariant s"
  shows "store_invariant (snd (insert_template_on_conflict_update now n d s))"
proof (cases "nextval s")
  case (Inl e)
  then show ?thesis using assms by (simp add: insert_template_on_conflict_update_def)
next
  case (Inr s1)
  have inv1: "store_invariant s1" using assms Inr by (rule inv_nextval)
  have le: "list_all (\<lambda>r. t_id r \<le> web_skyling_templates_id_seq s) (web_skyling_templates s1)"
    using assms nextval_fields[OF Inr] by (simp add: store_invariant_def ids_issued_def)
  have sq: "web_skyling_templates_id_seq s1 = Suc (web_skyling_templates_id_seq s)"
    using nextval_fields[OF Inr] by simp
  show ?thesis
    using assms inv1 Inr inv_set_data[OF inv1] inv_append_row[OF inv1 _ le sq]
    by (auto simp: insert_template_on_conflict_update_def split: option.splits)
qed

lemma inv_insert_template_on_conflict_nothing:
  assumes "store_invariant s"
  shows "store_invariant (snd (insert_template_on_conflict_nothing now n d s))"
proof (cases "nextval s")
  case (Inl e)
  then show ?thesis using assms by (simp add: insert_template_on_conflict_nothing_def)
next
  case (Inr s1)
  have inv1: "store_invariant s1" using assms Inr by (rule inv_nextval)
  have le: "list_all (\<lambda>r. t_id r \<le> web_skyling_templates_id_seq s) (web_skyling_templates s1)"
    using assms nextval_fields[OF Inr] by (simp add: store_invariant_def ids_issued_def)
  have sq: "web_skyling_templates_id_seq s1 = Suc (web_skyling_templates_id_seq s)"
    using nextval_fields[OF Inr] by simp
  show ?thesis
    using assms inv1 Inr inv_append_row[OF inv1 _ le sq]
    by (auto simp: insert_template_on_conflict_nothing_def split: option.splits)
qed

lemma inv_update_template_where_name:
  assumes "store_invariant s"
  shows "store_invariant (snd (update_template_where_name n d old s))"
proof -
  let ?rows = "web_skyling_templates s" and ?m = "web_skyling_templates_id_seq s"
  have d: "distinct (map t_name ?rows)" "distinct (map t_id ?rows)"
    and le: "list_all (\<lambda>r. t_id r \<le> ?m) ?rows"
    and k: "unique_keys s"
    using assms by (simp_all add: store_invariant_def unique_names_def ids_issued_def)
  have "\<And>n' d'. n' = old \<or> n' \<notin> set (map t_name ?rows) \<Longrightarrow>
      store_invariant (s\<lparr>web_skyling_templates :=
         map (\<lambda>r. if t_name r = old then r\<lparr>t_name := n', t_data := d'\<rparr> else r) ?rows\<rparr>)"
    using d k le
    by (simp add: store_invariant_def unique_names_def unique_keys_def ids_issued_def
        distinct_names_set_name map_id_set_name list_all_set_name del: map_map)
  then show ?thesis
    using assms
    by (auto simp: update_template_where_name_def split: option.splits)
qed

lemma inv_delete_template_where_name:
  "store_invariant s \<Longrightarrow> store_invariant (snd (delete_template_where_name n s))"
  by (simp add: store_invariant_def unique_names_def unique_keys_def ids_issued_def
      delete_template_where_name_def distinct_map_filter list_all_filter_name)

lemma snd_select [simp]:
  "snd (select_templates_order_by_created_at_desc s) = s"
  "snd (select_config s) = s"
  "snd (select_template_where_name n s) = s"
  by (simp_all add: select_templates_order_by_created_at_desc_def select_config_def
      select_template_where_name_def)

lemma snd_pool_query: "snd (pool_query e stmt s) = s \<or> snd (pool_query e stmt s) = snd (stmt s)"
  by (simp add: pool_query_def split: store_event.splits)

lemma inv_pool_query:
  "store_invariant (snd (stmt s)) \<Longrightarrow> store_invariant s \<Longrightarrow>
   store_invariant (snd (pool_query e stmt s))"
  using snd_pool_query[of e stmt s] by auto

lemma snd_list_templates: "snd (list_templates ev s) = s"
  using snd_pool_query[of "ev 0" select_templates_order_by_created_at_desc s]
  by (auto simp: list_templates_def split: prod.splits option.splits sum.splits)

lemma snd_get_config: "snd (get_config ev s) = s"
  using snd_pool_query[of "ev 0" select_config s]
  by (auto simp: get_config_def split: prod.splits option.splits sum.splits)

lemma snd_upsert:
  "snd (upsert ev now nm d s) = s \<or>
   snd (upsert ev now nm d s) = snd (insert_template_on_conflict_update now (prepareValue nm) d s)"
  by (auto simp: upsert_def pool_query_def select_templates_order_by_created_at_desc_def
      split: prod.splits option.splits sum.splits store_event.splits)

lemma inv_upsert: "store_invariant s \<Longrightarrow> store_invariant (snd (upsert ev now nm d s))"
  using snd_upsert[of ev now nm d s]
    inv_insert_template_on_conflict_update[of s now "prepareValue nm" d]
  by auto

lemma snd_set_config:
  "snd (set_config ev k v s) = s \<or>
   snd (set_config ev k v s) =
     snd (insert_config_on_conflict_update (prepareValue k) (prepareValue v) s)"
  by (auto simp: set_config_def pool_query_def
      split: prod.splits option.splits sum.splits store_event.splits)

lemma inv_set_config: "store_invariant s \<Longrightarrow> store_invariant (snd (set_config ev k v s))"
  using snd_set_config[of ev k v s]
    inv_insert_config_on_conflict_update[of s "prepareValue k" "prepareValue v"]
  by auto

lemma snd_delete_template:
  "snd (delete_template ev n s) = s \<or>
   snd (delete_template ev n s) = snd (delete_template_where_name n s)"
  by (auto simp: delete_template_def pool_query_def select_templates_order_by_created_at_desc_def
      split: prod.splits option.splits sum.splits store_event.splits)

lemma inv_delete_template:
  "store_invariant s \<Longrightarrow> store_invariant (snd (delete_template ev n s))"
  using snd_delete_template[of ev n s] inv_delete_template_where_name[of s n]
  by auto

lemma snd_catch_rollback [simp]: "snd (catch_rollback e s) = s"
  by (simp add: catch_rollback_def split: store_event.splits)

lemma snd_rollback_return [simp]: "snd (rollback_return ev i a s) = s"
  by (simp add: rollback_return_def split: store_event.splits)

lemma snd_rename_update:
  "snd (rename_update ev i old new d s0 s) = s0 \<or>
   snd (rename_update ev i old new d s0 s) =
     snd (update_template_where_name (prepareValue (js_or new (Str old))) d old s)"
  by (simp add: rename_update_def pool_query_def select_templates_order_by_created_at_desc_def
      Let_def split: prod.splits option.splits sum.splits store_event.splits)

lemma snd_rename_check_collision:
  "snd (rename_check_collision ev old new d s0 s) = s0 \<or>
   snd (rename_check_collision ev old new d s0 s) =
     snd (update_template_where_name (prepareValue (js_or new (Str old))) d old s)"
  using snd_rename_update[of ev 3 old new d s0 s] snd_rename_update[of ev 4 old new d s0 s]
  by (auto simp: rename_check_collision_def pool_query_def select_template_where_name_def
      split: store_event.splits)

lemma snd_rename:
  "snd (rename ev old new d s) = s \<or>
   snd (rename ev old new d s) =
     snd (update_template_where_name (prepareValue (js_or new (Str old))) d old s)"
  using snd_rename_check_collision[of ev old new d s s]
  by (auto simp: rename_def pool_query_def select_template_where_name_def
      split: store_event.splits)

lemma inv_rename:
  assumes "store_invariant s"
  shows "store_invariant (snd (rename ev old new d s))"
  using snd_rename[of ev old new d s]
    inv_update_template_where_name[OF assms, of "prepareValue (js_or new (Str old))" d old] assms
  by auto

lemma reachable_invariant: "reachable s \<Longrightarrow> store_invariant s"
proof (induction rule: reachable.induct)
  case r_init
  show ?case
    by (simp add: store_invariant_def unique_names_def unique_keys_def ids_issued_def
        empty_db_def)
next
  case (r_seed s e k v)
  then show ?case by (simp add: inv_pool_query inv_insert_config)
next
  case (r_migrate s e now n d)
  then show ?case by (simp add: inv_pool_query inv_insert_template_on_conflict_nothing)
qed (simp_all add: snd_list_templates snd_get_config inv_upsert inv_set_config
      inv_delete_template inv_rename)

lemma reachable_landing_ab: "reachable landing_ab"
proof -
  have ok: "text_ok ''Landing A''" "text_ok ''Landing B''" "jsonb_ok p1" "jsonb_ok p2"
    by (simp_all add: text_ok_def jsonb_ok_def p1_def p2_def)
  let ?s0 = "snd (set_config served (Str ''systemPrompt'') (Str ''X'') empty_db)"
  have s0: "?s0 = \<lparr>web_skyling_config = [\<lparr>c_key = ''systemPrompt'', c_value = Some ''X''\<rparr>],
      web_skyling_templates = [], web_skyling_templates_id_seq = 0\<rparr>"
    by (simp add: set_config_def insert_config_on_conflict_update_def empty_db_def text_ok_def)
  let ?s1 = "snd (upsert served 10 (Str ''Landing A'') (Some p1) ?s0)"
  have s1: "?s1 = \<lparr>web_skyling_config = [\<lparr>c_key = ''systemPrompt'', c_value = Some ''X''\<rparr>],
      web_skyling_templates =
        [\<lparr>t_id = 1, t_name = ''Landing A'', t_data = p1, t_created_at = 10\<rparr>],
      web_skyling_templates_id_seq = 1\<rparr>"
    unfolding s0 by (subst upsert_served) (simp_all add: ok)
  have s2: "snd (upsert served 20 (Str ''Landing B'') (Some p2) ?s1) = landing_ab"
    unfolding s1 by (subst upsert_served) (simp_all add: ok landing_ab_def)
  show ?thesis
    using r_upsert[OF r_upsert[OF r_set_config[OF r_init]]] s2 by metis
qed

text \<open>
  Claim C4. In every reachable database at most one template has a given name and at most
  one configuration entry has a given key, and the database that each of the six
  operations leaves behind, under any conditions of the store, has the same two
  properties.
\<close>

theorem uniqueness_invariant:
  assumes "reachable s"
  shows "unique_names s \<and> unique_keys s \<and>
         unique_names (snd (list_templates ev s)) \<and> unique_keys (snd (list_templates ev s)) \<and>
         unique_names (snd (upsert ev now nm d s)) \<and> unique_keys (snd (upsert ev now nm d s)) \<and>
         unique_names (snd (rename ev old new d s)) \<and> unique_keys (snd (rename ev old new d s)) \<and>
         unique_names (snd (delete_template ev n s)) \<and>
         unique_keys (snd (delete_template ev n s)) \<and>
         unique_names (snd (get_config ev s)) \<and> unique_keys (snd (get_config ev s)) \<and>
         unique_names (snd (set_config ev k v s)) \<and> unique_keys (snd (set_config ev k v s))"
proof -
  have inv: "store_invariant s" using assms by (rule reachable_invariant)
  show ?thesis
    using inv inv_upsert[OF inv, of ev now nm d] inv_rename[OF inv, of ev old new d]
      inv_delete_template[OF inv, of ev n] inv_set_config[OF inv, of ev k v]
    by (simp add: store_invariant_def snd_list_templates snd_get_config)
qed

theorem uniqueness_invariant_witness:
  "reachable landing_ab \<and> unique_names landing_ab \<and> unique_keys landing_ab \<and>
   unique_names (snd (rename served ''Landing A'' (Str ''Landing C'') (Some p3) landing_ab)) \<and>
   unique_names (snd (rename served ''Landing A'' (Str ''Landing B'') (Some p3) landing_ab))"
  using reachable_landing_ab
    uniqueness_invariant[OF reachable_landing_ab,
      where ev = served and old = "''Landing A''" and new = "Str ''Landing C''"
        and d = "Some p3"]
    uniqueness_invariant[OF reachable_landing_ab,
      where ev = served and old = "''Landing A''" and new = "Str ''Landing B''"
        and d = "Some p3"]
  by simp

subsection \<open>List\<close>

lemma list_templates_served:
  "list_templates served s =
     (Some (Inr (sort_key (\<lambda>r. - t_created_at r) (web_skyling_templates s))), s)"
  by (simp add: list_templates_def select_templates_order_by_created_at_desc_def)

lemma three_upserts:
  assumes "n1 \<noteq> []" "n2 \<noteq> []" "n3 \<noteq> []" "distinct [n1, n2, n3]"
    and "text_ok n1" "text_ok n2" "text_ok n3" "jsonb_ok d1" "jsonb_ok d2" "jsonb_ok d3"
  shows "snd (upsert served t3 (Str n3) (Some d3)
           (snd (upsert served t2 (Str n2) (Some d2)
             (snd (upsert served t1 (Str n1) (Some d1) empty_db))))) =
         \<lparr>web_skyling_config = [],
          web_skyling_templates =
            [\<lparr>t_id = 1, t_name = n1, t_data = d1, t_created_at = t1\<rparr>,
             \<lparr>t_id = 2, t_name = n2, t_data = d2, t_created_at = t2\<rparr>,
             \<lparr>t_id = 3, t_name = n3, t_data = d3, t_created_at = t3\<rparr>],
          web_skyling_templates_id_seq = 3\<rparr>"
proof -
  have a: "snd (upsert served t1 (Str n1) (Some d1) empty_db) =
      \<lparr>web_skyling_config = [],
       web_skyling_templates = [\<lparr>t_id = 1, t_name = n1, t_data = d1, t_created_at = t1\<rparr>],
       web_skyling_templates_id_seq = 1\<rparr>"
    by (subst upsert_served) (simp_all add: assms empty_db_def)
  have b: "snd (upsert served t2 (Str n2) (Some d2)
             (snd (upsert served t1 (Str n1) (Some d1) empty_db))) =
      \<lparr>web_skyling_config = [],
       web_skyling_templates =
         [\<lparr>t_id = 1, t_name = n1, t_data = d1, t_created_at = t1\<rparr>,
          \<lparr>t_id = 2, t_name = n2, t_data = d2, t_created_at = t2\<rparr>],
       web_skyling_templates_id_seq = 2\<rparr>"
    unfolding a using assms(4) by (subst upsert_served) (auto simp: assms numeral_2_eq_2)
  show ?thesis
    unfolding b using assms(4)
    by (subst upsert_served) (auto simp: assms numeral_3_eq_3 numeral_2_eq_2)
qed

text \<open>
  Claim C5. With its statement served, List returns every stored template, each as often
  as it is stored, in descending order of creation time, and leaves the database as it
  was. In particular, three templates with distinct non-empty names and with names and
  payloads the database accepts, saved into the empty database at increasing times
  \<open>t1 < t2 < t3\<close>, are listed latest first.
\<close>

theorem list_templates_order:
  "(\<exists>rows. list_templates served s = (Some (Inr rows), s) \<and>
      mset rows = mset (web_skyling_templates s) \<and>
      sorted_wrt (\<lambda>a b. t_created_at b \<le> t_created_at a) rows) \<and>
   (n1 \<noteq> [] \<and> n2 \<noteq> [] \<and> n3 \<noteq> [] \<and> distinct [n1, n2, n3] \<and>
    text_ok n1 \<and> text_ok n2 \<and> text_ok n3 \<and> jsonb_ok d1 \<and> jsonb_ok d2 \<and> jsonb_ok d3 \<and>
    t1 < t2 \<and> t2 < t3 \<longrightarrow>
      fst (list_templates served
            (snd (upsert served t3 (Str n3) (Some d3)
              (snd (upsert served t2 (Str n2) (Some d2)
                (snd (upsert served t1 (Str n1) (Some d1) empty_db))))))) =
      Some (Inr [\<lparr>t_id = 3, t_name = n3, t_data = d3, t_created_at = t3\<rparr>,
                 \<lparr>t_id = 2, t_name = n2, t_data = d2, t_created_at = t2\<rparr>,
                 \<lparr>t_id = 1, t_name = n1, t_data = d1, t_created_at = t1\<rparr>]))"
proof -
  have a: "\<exists>rows. list_templates served s = (Some (Inr rows), s) \<and>
            mset rows = mset (web_skyling_templates s) \<and>
            sorted_wrt (\<lambda>a b. t_created_at b \<le> t_created_at a) rows"
    unfolding list_templates_served using sorted_desc_sort_key by auto
  have b: "n1 \<noteq> [] \<and> n2 \<noteq> [] \<and> n3 \<noteq> [] \<and> distinct [n1, n2, n3] \<and>
    text_ok n1 \<and> text_ok n2 \<and> text_ok n3 \<and> jsonb_ok d1 \<and> jsonb_ok d2 \<and> jsonb_ok d3 \<and>
    t1 < t2 \<and> t2 < t3 \<longrightarrow>
      fst (list_templates served
            (snd (upsert served t3 (Str n3) (Some d3)
              (snd (upsert served t2 (Str n2) (Some d2)
                (snd (upsert served t1 (Str n1) (Some d1) empty_db))))))) =
      Some (Inr [\<lparr>t_id = 3, t_name = n3, t_data = d3, t_created_at = t3\<rparr>,
                 \<lparr>t_id = 2, t_name = n2, t_data = d2, t_created_at = t2\<rparr>,
                 \<lparr>t_id = 1, t_name = n1, t_data = d1, t_created_at = t1\<rparr>])"
  proof
    assume h: "n1 \<noteq> [] \<and> n2 \<noteq> [] \<and> n3 \<noteq> [] \<and> distinct [n1, n2, n3] \<and>
      text_ok n1 \<and> text_ok n2 \<and> text_ok n3 \<and> jsonb_ok d1 \<and> jsonb_ok d2 \<and> jsonb_ok d3 \<and>
      t1 < t2 \<and> t2 < t3"
    then have st: "snd (upsert served t3 (Str n3) (Some d3)
           (snd (upsert served t2 (Str n2) (Some d2)
             (snd (upsert served t1 (Str n1) (Some d1) empty_db))))) =
         \<lparr>web_skyling_config = [],
          web_skyling_templates =
            [\<lparr>t_id = 1, t_name = n1, t_data = d1, t_created_at = t1\<rparr>,
             \<lparr>t_id = 2, t_name = n2, t_data = d2, t_created_at = t2\<rparr>,
             \<lparr>t_id = 3, t_name = n3, t_data = d3, t_created_at = t3\<rparr>],
          web_skyling_templates_id_seq = 3\<rparr>"
      using three_upserts[of n1 n2 n3 d1 d2 d3 t3 t2 t1] by simp
    show "fst (list_templates served
            (snd (upsert served t3 (Str n3) (Some d3)
              (snd (upsert served t2 (Str n2) (Some d2)
                (snd (upsert served t1 (Str n1) (Some d1) empty_db))))))) =
      Some (Inr [\<lparr>t_id = 3, t_name = n3, t_data = d3, t_created_at = t3\<rparr>,
                 \<lparr>t_id = 2, t_name = n2, t_data = d2, t_created_at = t2\<rparr>,
                 \<lparr>t_id = 1, t_name = n1, t_data = d1, t_created_at = t1\<rparr>])"
      unfolding st list_templates_served using h by simp
  qed
  show ?thesis using a b by blast
qed

theorem list_templates_order_witness:
  "fst (list_templates served
         (snd (upsert served 30 (Str ''T3'') (Some p3)
           (snd (upsert served 20 (Str ''T2'') (Some p2)
             (snd (upsert served 10 (Str ''T1'') (Some p1) empty_db))))))) =
     Some (Inr [\<lparr>t_id = 3, t_name = ''T3'', t_data = p3, t_created_at = 30\<rparr>,
                \<lparr>t_id = 2, t_name = ''T2'', t_data = p2, t_created_at = 20\<rparr>,
                \<lparr>t_id = 1, t_name = ''T1'', t_data = p1, t_created_at = 10\<rparr>])"
proof -
  note th = list_templates_order[of empty_db "''T1''" "''T2''" "''T3''" p1 p2 p3 10 20 30]
  have pre: "''T1'' \<noteq> [] \<and> ''T2'' \<noteq> [] \<and> ''T3'' \<noteq> [] \<and> distinct [''T1'', ''T2'', ''T3''] \<and>
      text_ok ''T1'' \<and> text_ok ''T2'' \<and> text_ok ''T3'' \<and> jsonb_ok p1 \<and> jsonb_ok p2 \<and>
      jsonb_ok p3 \<and> (10::int) < 20 \<and> (20::int) < 30"
    by (simp add: text_ok_def jsonb_ok_def p1_def p2_def p3_def)
  from th[THEN conjunct2, rule_format, OF pre] show ?thesis .
qed

subsection \<open>Delete\<close>

lemma delete_template_served:
  "text_ok n \<Longrightarrow> delete_template served n s =
     (Some (Inr (sort_key (\<lambda>r. - t_created_at r)
             (filter (\<lambda>r. t_name r \<noteq> n) (web_skyling_templates s)))),
      s\<lparr>web_skyling_templates := filter (\<lambda>r. t_name r \<noteq> n) (web_skyling_templates s)\<rparr>)"
  by (simp add: delete_template_def delete_template_where_name_def
      select_templates_order_by_created_at_desc_def)

lemma delete_template_nul:
  "\<not> text_ok n \<Longrightarrow> delete_template served n s = (Some (Inl StoreUnavailable), s)"
  by (simp add: delete_template_def delete_template_where_name_def)




subsection \<open>Validation and store failures\<close>

lemma not_truthy_iff: "(\<not> truthy v) = (v = Undefined \<or> v = Null \<or> v = Str [])"
  by (cases v) auto

lemma upsert_validation:
  "(fst (upsert ev now nm d s) = Some (Inl ValidationError)) = (\<not> truthy nm)"
  by (auto simp: upsert_def pool_query_def select_templates_order_by_created_at_desc_def
      split: prod.splits sum.splits option.splits store_event.splits)

lemma set_config_validation:
  "(fst (set_config ev k v s) = Some (Inl ValidationError)) = (\<not> truthy k)"
  by (auto simp: set_config_def pool_query_def
      split: prod.splits sum.splits option.splits store_event.splits)

lemma insert_config_update_ok:
  assumes "text_ok key" and "text_param_ok v"
  shows "insert_config_on_conflict_update (Some key) v s =
     (Inr (),
      s\<lparr>web_skyling_config :=
          (if key \<in> set (map c_key (web_skyling_config s))
           then map (\<lambda>r. if c_key r = key then r\<lparr>c_value := v\<rparr> else r) (web_skyling_config s)
           else web_skyling_config s @ [\<lparr>c_key = key, c_value = v\<rparr>])\<rparr>)"
  using assms by (simp add: insert_config_on_conflict_update_def)

lemma set_config_served:
  assumes "key \<noteq> []" and "text_ok key" and "text_param_ok (prepareValue v)"
  shows "set_config served (Str key) v s =
     (Some (Inr (Str key, v)),
      s\<lparr>web_skyling_config :=
          (if key \<in> set (map c_key (web_skyling_config s))
           then map (\<lambda>r. if c_key r = key then r\<lparr>c_value := prepareValue v\<rparr> else r)
                  (web_skyling_config s)
           else web_skyling_config s @ [\<lparr>c_key = key, c_value = prepareValue v\<rparr>])\<rparr>)"
  using assms(1) by (simp add: set_config_def insert_config_update_ok[OF assms(2,3)])

lemma set_config_stores:
  "\<lparr>c_key = key, c_value = v\<rparr>
     \<in> set (if key \<in> set (map c_key rows)
            then map (\<lambda>r. if c_key r = key then r\<lparr>c_value := v\<rparr> else r) rows
            else rows @ [\<lparr>c_key = key, c_value = v\<rparr>])"
proof (cases "key \<in> set (map c_key rows)")
  case True
  then obtain r where r: "r \<in> set rows" "c_key r = key" by auto
  let ?f = "\<lambda>r. if c_key r = key then r\<lparr>c_value := v\<rparr> else r"
  have "?f r \<in> set (map ?f rows)" using r(1) by (simp only: set_map image_eqI)
  moreover have "?f r = \<lparr>c_key = key, c_value = v\<rparr>" using r(2) by simp
  ultimately show ?thesis using True by (simp only: if_True)
next
  case False
  then show ?thesis by simp
qed

text \<open>
  Validation. Upsert answers \<open>ValidationError\<close> exactly when the name is the
  empty string, \<^verbatim>\<open>null\<close> or missing, SetConfig exactly when the key is, and the database
  is then as it was. With a non-empty key the database accepts and the empty string as
  value, a served SetConfig succeeds and stores the empty string.
\<close>

lemma validation_errors:
  "((fst (upsert ev now nm d s) = Some (Inl ValidationError)) =
      (nm = Undefined \<or> nm = Null \<or> nm = Str [])) \<and>
   (fst (upsert ev now nm d s) = Some (Inl ValidationError) \<longrightarrow>
      snd (upsert ev now nm d s) = s) \<and>
   ((fst (set_config ev k v s) = Some (Inl ValidationError)) =
      (k = Undefined \<or> k = Null \<or> k = Str [])) \<and>
   (fst (set_config ev k v s) = Some (Inl ValidationError) \<longrightarrow>
      snd (set_config ev k v s) = s) \<and>
   (key \<noteq> [] \<and> text_ok key \<longrightarrow>
      fst (set_config served (Str key) (Str []) s) = Some (Inr (Str key, Str [])) \<and>
      \<lparr>c_key = key, c_value = Some []\<rparr>
        \<in> set (web_skyling_config (snd (set_config served (Str key) (Str []) s))))"
proof -
  have a: "(fst (upsert ev now nm d s) = Some (Inl ValidationError)) =
      (nm = Undefined \<or> nm = Null \<or> nm = Str [])"
    by (simp only: upsert_validation not_truthy_iff)
  have b: "fst (upsert ev now nm d s) = Some (Inl ValidationError) \<longrightarrow>
      snd (upsert ev now nm d s) = s"
    by (simp add: upsert_validation) (simp add: upsert_def)
  have c: "(fst (set_config ev k v s) = Some (Inl ValidationError)) =
      (k = Undefined \<or> k = Null \<or> k = Str [])"
    by (simp only: set_config_validation not_truthy_iff)
  have d: "fst (set_config ev k v s) = Some (Inl ValidationError) \<longrightarrow>
      snd (set_config ev k v s) = s"
    by (simp add: set_config_validation) (simp add: set_config_def)
  have e: "key \<noteq> [] \<and> text_ok key \<longrightarrow>
      fst (set_config served (Str key) (Str []) s) = Some (Inr (Str key, Str [])) \<and>
      \<lparr>c_key = key, c_value = Some []\<rparr>
        \<in> set (web_skyling_config (snd (set_config served (Str key) (Str []) s)))"
    using set_config_stores[of key "Some []" "web_skyling_config s"]
    by (auto simp: set_config_served text_ok_def)
  show ?thesis using a b c d e by blast
qed

text \<open>
  A statement that the store rejects, whether the connection fails or the database
  refuses a parameter, is answered \<open>StoreUnavailable\<close>; and no handler answers with an
  error kind other than its validation or lookup errors and \<open>StoreUnavailable\<close>.
\<close>

lemma rejected_statement_answers_500:
  "(truthy nm \<and> ev 0 = Rejected \<longrightarrow>
      upsert ev now nm d s = (Some (Inl StoreUnavailable), s)) \<and>
   (truthy k \<and> ev 0 = Rejected \<longrightarrow>
      set_config ev k v s = (Some (Inl StoreUnavailable), s)) \<and>
   (ev 0 = Rejected \<longrightarrow>
      list_templates ev s = (Some (Inl StoreUnavailable), s) \<and>
      rename ev old new d s = (Some (Inl StoreUnavailable), s) \<and>
      delete_template ev n s = (Some (Inl StoreUnavailable), s) \<and>
      get_config ev s = (Some (Inl StoreUnavailable), s)) \<and>
   (truthy nm \<and> ev 0 = Served \<and> ev 1 = Rejected \<longrightarrow>
      fst (upsert ev now nm d s) = Some (Inl StoreUnavailable)) \<and>
   (ev 0 = Served \<and> \<not> text_ok nul \<longrightarrow>
      fst (upsert ev now (Str nul) d s) = Some (Inl StoreUnavailable) \<and>
      fst (set_config ev (Str nul) v s) = Some (Inl StoreUnavailable) \<and>
      fst (delete_template ev nul s) = Some (Inl StoreUnavailable)) \<and>
   (truthy nm \<and> ev 0 = Served \<longrightarrow>
      fst (upsert ev now nm None s) = Some (Inl StoreUnavailable))"
proof -
  have a: "truthy nm \<and> ev 0 = Rejected \<longrightarrow>
      upsert ev now nm d s = (Some (Inl StoreUnavailable), s)"
    by (simp add: upsert_def pool_query_def)
  have b: "truthy k \<and> ev 0 = Rejected \<longrightarrow>
      set_config ev k v s = (Some (Inl StoreUnavailable), s)"
    by (simp add: set_config_def pool_query_def)
  have c: "ev 0 = Rejected \<longrightarrow>
      list_templates ev s = (Some (Inl StoreUnavailable), s) \<and>
      rename ev old new d s = (Some (Inl StoreUnavailable), s) \<and>
      delete_template ev n s = (Some (Inl StoreUnavailable), s) \<and>
      get_config ev s = (Some (Inl StoreUnavailable), s)"
    by (simp add: list_templates_def rename_def delete_template_def get_config_def
        pool_query_def)
  have d: "truthy nm \<and> ev 0 = Served \<and> ev 1 = Rejected \<longrightarrow>
      fst (upsert ev now nm d s) = Some (Inl StoreUnavailable)"
    by (simp add: upsert_def pool_query_def split: sum.splits)
  have nul: "text_ok []" by (simp add: text_ok_def)
  have e: "ev 0 = Served \<and> \<not> text_ok nul \<longrightarrow>
      fst (upsert ev now (Str nul) d s) = Some (Inl StoreUnavailable) \<and>
      fst (set_config ev (Str nul) v s) = Some (Inl StoreUnavailable) \<and>
      fst (delete_template ev nul s) = Some (Inl StoreUnavailable)"
    using nul
    by (auto simp: upsert_def set_config_def delete_template_def pool_query_def
        insert_template_on_conflict_update_def insert_config_on_conflict_update_def
        delete_template_where_name_def)
  have f: "truthy nm \<and> ev 0 = Served \<longrightarrow>
      fst (upsert ev now nm None s) = Some (Inl StoreUnavailable)"
    by (cases nm)
      (simp_all add: upsert_def pool_query_def insert_template_on_conflict_update_def
        nextval_def)
  show ?thesis using a b c d e f by blast
qed

lemma handler_error_kinds:
  "(\<forall>e. fst (upsert ev now nm d s) = Some (Inl e) \<longrightarrow>
        e = ValidationError \<or> e = StoreUnavailable) \<and>
   (\<forall>e. fst (set_config ev k v s) = Some (Inl e) \<longrightarrow>
        e = ValidationError \<or> e = StoreUnavailable) \<and>
   (\<forall>e. fst (list_templates ev s) = Some (Inl e) \<or> fst (delete_template ev n s) = Some (Inl e) \<or>
        fst (get_config ev s) = Some (Inl e) \<longrightarrow> e = StoreUnavailable)"
proof -
  have a: "\<forall>e. fst (upsert ev now nm d s) = Some (Inl e) \<longrightarrow>
        e = ValidationError \<or> e = StoreUnavailable"
    by (cases "ev 0"; cases "ev 1")
      (auto simp: upsert_def pool_query_def select_templates_order_by_created_at_desc_def
        split: sum.splits if_splits)
  have b: "\<forall>e. fst (set_config ev k v s) = Some (Inl e) \<longrightarrow>
        e = ValidationError \<or> e = StoreUnavailable"
    by (cases "ev 0") (auto simp: set_config_def pool_query_def split: sum.splits if_splits)
  have c: "\<forall>e. fst (list_templates ev s) = Some (Inl e) \<or>
        fst (delete_template ev n s) = Some (Inl e) \<or>
        fst (get_config ev s) = Some (Inl e) \<longrightarrow> e = StoreUnavailable"
    by (cases "ev 0"; cases "ev 1")
      (auto simp: list_templates_def delete_template_def get_config_def pool_query_def
        select_templates_order_by_created_at_desc_def select_config_def
        split: sum.splits)
  show ?thesis using a b c by blast
qed

text \<open>
  Claim C8 says that Upsert and SetConfig fail with \<open>ValidationError\<close> exactly on an
  empty name or key, without a change, that a value may be empty, and that any
  infrastructure failure of the store surfaces as \<open>StoreUnavailable\<close>. The first parts
  hold (\<open>validation_errors\<close>), and a failure that rejects a statement is answered
  \<open>StoreUnavailable\<close> by the \<^verbatim>\<open>catch\<close> of the handler
  (\<open>rejected_statement_answers_500\<close>). The last part fails for a failure that breaks
  the connection of an idle pooled client: the pool emits \<^verbatim>\<open>error\<close>, \<^verbatim>\<open>server.js\<close> has no
  listener for it, the process ends, and the request is not answered at all, neither
  with \<open>StoreUnavailable\<close> nor with anything else.
\<close>

theorem idle_client_error_gets_no_answer:
  "upsert (\<lambda>i. IdleClientError) 30 (Str ''Landing C'') (Some p3) landing_ab
     = (None, landing_ab) \<and>
   set_config (\<lambda>i. IdleClientError) (Str ''systemPrompt'') (Str ''Y'') landing_ab
     = (None, landing_ab) \<and>
   fst (upsert (\<lambda>i. IdleClientError) 30 (Str ''Landing C'') (Some p3) landing_ab)
     \<noteq> Some (Inl StoreUnavailable)"
  by (simp add: upsert_def set_config_def pool_query_def)

subsection \<open>Surrogate ids\<close>

lemma id_le_seq:
  "list_all (\<lambda>r. t_id r \<le> m) rows \<Longrightarrow> r \<in> set rows \<Longrightarrow> t_id r \<le> m"
  by (simp add: list_all_iff)

text \<open>
  Claim C9. Every template row has a numeric id, which the returned lists carry, and in a
  reachable database no two rows share one. Let \<open>r\<close> be a template of a reachable
  database whose sequence is not exhausted, with a non-empty name \<open>n\<close>; let names and
  payloads be ones the database accepts and let every statement be served. Upsert on
  \<open>n\<close> succeeds and returns the row \<open>r\<close> with only its payload changed. Rename of \<open>n\<close>
  to a non-empty name \<open>m\<close> that is \<open>n\<close> itself or free succeeds and returns the row
  \<open>r\<close> with only its name and payload changed; Rename with no new name succeeds and
  returns \<open>r\<close> with only its payload changed; and whenever a Rename of \<open>n\<close> succeeds,
  under any conditions of the store, the list returned has a row with the id of \<open>r\<close>.
  After Delete of \<open>n\<close> followed by Upsert on \<open>n\<close> the one template named \<open>n\<close> has an
  id that differs from the id of \<open>r\<close> and from every id in the database before.
\<close>

theorem surrogate_id_preserved:
  assumes "reachable s" and "r \<in> set (web_skyling_templates s)"
    and "t_name r = n" and "n \<noteq> []" and "text_ok n" and "jsonb_ok d"
    and "web_skyling_templates_id_seq s < 2147483647"
    and "m \<noteq> []" and "text_ok m" and "m = n \<or> m \<notin> set (map t_name (web_skyling_templates s))"
  shows "distinct (map t_id (web_skyling_templates s)) \<and>
         (\<exists>rows s'. upsert served now (Str n) (Some d) s = (Some (Inr rows), s') \<and>
            r\<lparr>t_data := d\<rparr> \<in> set (web_skyling_templates s') \<and> r\<lparr>t_data := d\<rparr> \<in> set rows) \<and>
         (\<exists>rows s'. rename served n (Str m) (Some d) s = (Some (Inr rows), s') \<and>
            r\<lparr>t_name := m, t_data := d\<rparr> \<in> set (web_skyling_templates s') \<and>
            r\<lparr>t_name := m, t_data := d\<rparr> \<in> set rows) \<and>
         (\<exists>rows s'. rename served n Undefined (Some d) s = (Some (Inr rows), s') \<and>
            r\<lparr>t_data := d\<rparr> \<in> set (web_skyling_templates s') \<and> r\<lparr>t_data := d\<rparr> \<in> set rows) \<and>
         (\<forall>ev new dn rows s'. rename ev n new dn s = (Some (Inr rows), s') \<longrightarrow>
            (\<exists>r' \<in> set rows. r' \<in> set (web_skyling_templates s') \<and> t_id r' = t_id r \<and>
               t_name r' = (case new of Str m \<Rightarrow> if m = [] then n else m | _ \<Rightarrow> n))) \<and>
         (\<exists>r'. filter (\<lambda>q. t_name q = n)
                  (web_skyling_templates
                     (snd (upsert served now (Str n) (Some d)
                        (snd (delete_template served n s)))))
                = [r'] \<and>
               t_id r' \<noteq> t_id r \<and> t_id r' \<notin> t_id ` set (web_skyling_templates s))"
proof -
  let ?rows = "web_skyling_templates s" and ?m = "web_skyling_templates_id_seq s"
  have inv: "store_invariant s" using assms(1) by (rule reachable_invariant)
  then have ids: "distinct (map t_id ?rows)" and le: "list_all (\<lambda>r. t_id r \<le> ?m) ?rows"
    by (simp_all add: store_invariant_def ids_issued_def)
  have named: "n \<in> set (map t_name ?rows)" using assms(2,3) by auto
  txt \<open>Upsert on the existing name\<close>
  let ?f = "\<lambda>q. if t_name q = n then q\<lparr>t_data := d\<rparr> else q"
  have "?f r \<in> set (map ?f ?rows)" using assms(2) by (simp only: set_map image_eqI)
  then have in_upd: "r\<lparr>t_data := d\<rparr> \<in> set (map ?f ?rows)" using assms(3) by simp
  have ups: "\<exists>rows s'. upsert served now (Str n) (Some d) s = (Some (Inr rows), s') \<and>
            r\<lparr>t_data := d\<rparr> \<in> set (web_skyling_templates s') \<and> r\<lparr>t_data := d\<rparr> \<in> set rows"
  proof (intro exI conjI)
    show "upsert served now (Str n) (Some d) s =
        (Some (Inr (sort_key (\<lambda>r. - t_created_at r) (map ?f ?rows))),
         s\<lparr>web_skyling_templates_id_seq := Suc ?m, web_skyling_templates := map ?f ?rows\<rparr>)"
      unfolding upsert_served[OF assms(4,5,6,7)] using named by (simp only: if_True)
    have sel: "web_skyling_templates
        (s\<lparr>web_skyling_templates_id_seq := Suc ?m, web_skyling_templates := map ?f ?rows\<rparr>)
          = map ?f ?rows"
      by simp
    show "r\<lparr>t_data := d\<rparr> \<in> set (web_skyling_templates
        (s\<lparr>web_skyling_templates_id_seq := Suc ?m, web_skyling_templates := map ?f ?rows\<rparr>))"
      using in_upd by (simp only: sel)
    show "r\<lparr>t_data := d\<rparr> \<in> set (sort_key (\<lambda>r. - t_created_at r) (map ?f ?rows))"
      using in_upd by (simp only: set_sort)
  qed
  txt \<open>Rename to \<open>m\<close>\<close>
  let ?g = "\<lambda>q. if t_name q = n then q\<lparr>t_name := m, t_data := d\<rparr> else q"
  have "?g r \<in> set (map ?g ?rows)" using assms(2) by (simp only: set_map image_eqI)
  then have in_g: "r\<lparr>t_name := m, t_data := d\<rparr> \<in> set (map ?g ?rows)" using assms(3) by simp
  have ren_to: "\<exists>rows s'. rename served n (Str m) (Some d) s = (Some (Inr rows), s') \<and>
            r\<lparr>t_name := m, t_data := d\<rparr> \<in> set (web_skyling_templates s') \<and>
            r\<lparr>t_name := m, t_data := d\<rparr> \<in> set rows"
  proof (intro exI conjI)
    show "rename served n (Str m) (Some d) s =
        (Some (Inr (sort_key (\<lambda>r. - t_created_at r) (map ?g ?rows))),
         s\<lparr>web_skyling_templates := map ?g ?rows\<rparr>)"
      by (rule rename_to[OF assms(5,9,6) named assms(8,10)])
    have sel: "web_skyling_templates (s\<lparr>web_skyling_templates := map ?g ?rows\<rparr>)
        = map ?g ?rows"
      by simp
    show "r\<lparr>t_name := m, t_data := d\<rparr>
        \<in> set (web_skyling_templates (s\<lparr>web_skyling_templates := map ?g ?rows\<rparr>))"
      using in_g by (simp only: sel)
    show "r\<lparr>t_name := m, t_data := d\<rparr>
        \<in> set (sort_key (\<lambda>r. - t_created_at r) (map ?g ?rows))"
      using in_g by (simp only: set_sort)
  qed
  txt \<open>Rename with no new name\<close>
  let ?h = "\<lambda>q. if t_name q = n then q\<lparr>t_name := n, t_data := d\<rparr> else q"
  have mem_h: "?h r \<in> set (map ?h ?rows)" using assms(2) by (simp only: set_map image_eqI)
  have "r\<lparr>t_name := t_name r, t_data := d\<rparr> = r\<lparr>t_data := d\<rparr>" by simp
  then have "?h r = r\<lparr>t_data := d\<rparr>" using assms(3) by simp
  then have in_h: "r\<lparr>t_data := d\<rparr> \<in> set (map ?h ?rows)" using mem_h by (simp only:)
  have ren_keep: "\<exists>rows s'. rename served n Undefined (Some d) s = (Some (Inr rows), s') \<and>
            r\<lparr>t_data := d\<rparr> \<in> set (web_skyling_templates s') \<and> r\<lparr>t_data := d\<rparr> \<in> set rows"
  proof (intro exI conjI)
    have "\<not> truthy Undefined" by simp
    then show "rename served n Undefined (Some d) s =
        (Some (Inr (sort_key (\<lambda>r. - t_created_at r) (map ?h ?rows))),
         s\<lparr>web_skyling_templates := map ?h ?rows\<rparr>)"
      by (rule rename_keep[OF assms(5,6) named])
    have sel: "web_skyling_templates (s\<lparr>web_skyling_templates := map ?h ?rows\<rparr>)
        = map ?h ?rows"
      by simp
    show "r\<lparr>t_data := d\<rparr>
        \<in> set (web_skyling_templates (s\<lparr>web_skyling_templates := map ?h ?rows\<rparr>))"
      using in_h by (simp only: sel)
    show "r\<lparr>t_data := d\<rparr> \<in> set (sort_key (\<lambda>r. - t_created_at r) (map ?h ?rows))"
      using in_h by (simp only: set_sort)
  qed
  txt \<open>Any successful Rename\<close>
  have ren: "\<forall>ev new dn rows s'. rename ev n new dn s = (Some (Inr rows), s') \<longrightarrow>
            (\<exists>r' \<in> set rows. r' \<in> set (web_skyling_templates s') \<and> t_id r' = t_id r \<and>
               t_name r' = (case new of Str m \<Rightarrow> if m = [] then n else m | _ \<Rightarrow> n))"
  proof (intro allI impI)
    fix ev new dn rows s' assume run: "rename ev n new dn s = (Some (Inr rows), s')"
    from rename_success[OF run] obtain d' fin where
      fin: "prepareValue (js_or new (Str n)) = Some fin" and
      s': "s' = s\<lparr>web_skyling_templates :=
              map (\<lambda>r. if t_name r = n then r\<lparr>t_name := fin, t_data := d'\<rparr> else r) ?rows\<rparr>" and
      rows: "rows = sort_key (\<lambda>r. - t_created_at r) (web_skyling_templates s')"
      by blast
    have fin_eq: "fin = (case new of Str m \<Rightarrow> if m = [] then n else m | _ \<Rightarrow> n)"
      using fin by (cases new) (auto simp: js_or_def split: if_splits)
    let ?k = "\<lambda>r. if t_name r = n then r\<lparr>t_name := fin, t_data := d'\<rparr> else r"
    have "?k r \<in> set (web_skyling_templates s')" using assms(2) s' by simp
    then show "\<exists>r' \<in> set rows. r' \<in> set (web_skyling_templates s') \<and> t_id r' = t_id r \<and>
               t_name r' = (case new of Str m \<Rightarrow> if m = [] then n else m | _ \<Rightarrow> n)"
      using rows fin_eq assms(3) by (intro bexI[of _ "?k r"]) simp_all
  qed
  txt \<open>Delete, then create again\<close>
  let ?new = "\<lparr>t_id = Suc ?m, t_name = n, t_data = d, t_created_at = now\<rparr>"
  let ?kept = "filter (\<lambda>q. t_name q \<noteq> n) ?rows"
  have gone: "n \<notin> set (map t_name ?kept)" by auto
  have del: "snd (delete_template served n s) = s\<lparr>web_skyling_templates := ?kept\<rparr>"
    by (simp add: delete_template_served[OF assms(5)])
  have after: "web_skyling_templates
      (snd (upsert served now (Str n) (Some d) (snd (delete_template served n s))))
        = ?kept @ [?new]"
    unfolding del using gone assms(7)
    by (subst upsert_served[OF assms(4,5,6)]) (simp_all del: set_map)
  have "filter (\<lambda>q. t_name q = n) ?kept = []" by (induction ?rows) auto
  then have only: "filter (\<lambda>q. t_name q = n) (?kept @ [?new]) = [?new]" by simp
  have "t_id r \<le> ?m" using le assms(2) by (rule id_le_seq)
  then have differs: "t_id ?new \<noteq> t_id r" by simp
  have fresh: "t_id ?new \<notin> t_id ` set ?rows" using fresh_id[OF le] by simp
  have again: "\<exists>r'. filter (\<lambda>q. t_name q = n)
                  (web_skyling_templates
                     (snd (upsert served now (Str n) (Some d)
                        (snd (delete_template served n s)))))
                = [r'] \<and>
               t_id r' \<noteq> t_id r \<and> t_id r' \<notin> t_id ` set (web_skyling_templates s)"
    unfolding after using only differs fresh by blast
  show ?thesis using ids ups ren_to ren_keep ren again by blast
qed

theorem surrogate_id_preserved_witness:
  "(\<exists>rows s'. upsert served 30 (Str ''Landing A'') (Some p3) landing_ab
        = (Some (Inr rows), s') \<and>
      \<lparr>t_id = 1, t_name = ''Landing A'', t_data = p3, t_created_at = 10\<rparr> \<in> set rows) \<and>
   (\<exists>rows s'. rename served ''Landing A'' (Str ''Landing C'') (Some p3) landing_ab
        = (Some (Inr rows), s') \<and>
      \<lparr>t_id = 1, t_name = ''Landing C'', t_data = p3, t_created_at = 10\<rparr> \<in> set rows) \<and>
   (\<exists>r'. filter (\<lambda>q. t_name q = ''Landing A'')
            (web_skyling_templates
               (snd (upsert served 30 (Str ''Landing A'') (Some p3)
                  (snd (delete_template served ''Landing A'' landing_ab)))))
          = [r'] \<and> t_id r' \<noteq> 1)"
proof -
  have mem: "\<lparr>t_id = 1, t_name = ''Landing A'', t_data = p1, t_created_at = 10\<rparr>
      \<in> set (web_skyling_templates landing_ab)"
    by (simp add: landing_ab_def)
  have nm: "t_name \<lparr>t_id = 1, t_name = ''Landing A'', t_data = p1, t_created_at = 10\<rparr>
      = ''Landing A''" "''Landing A'' \<noteq> []" "text_ok ''Landing A''" "jsonb_ok p3"
    "web_skyling_templates_id_seq landing_ab < 2147483647"
    "''Landing C'' \<noteq> []" "text_ok ''Landing C''"
    "''Landing C'' = ''Landing A'' \<or>
       ''Landing C'' \<notin> set (map t_name (web_skyling_templates landing_ab))"
    by (simp_all add: text_ok_def jsonb_ok_def p3_def landing_ab_def)
  from surrogate_id_preserved[OF reachable_landing_ab mem nm, where now = 30]
  show ?thesis by auto
qed

subsection \<open>Configuration\<close>

lemma js_assign_own_other: "k' \<noteq> k \<Longrightarrow> own (js_assign obj k v) k' = own obj k'"
  by (simp add: js_assign_def split: option.splits)

lemma js_assign_own_same: "k \<noteq> ''__proto__'' \<Longrightarrow> own (js_assign obj k v) k = Some v"
  by (simp add: js_assign_def)

lemma get_config_served:
  "get_config served s =
     (Some (Inr (own (foldl (\<lambda>config row. js_assign config (c_key row) (c_value row))
                        object_literal (web_skyling_config s)))), s)"
  by (simp add: get_config_def select_config_def)

lemma foldl_assign_value:
  "key \<noteq> ''__proto__'' \<Longrightarrow> \<forall>r \<in> set rows. c_key r = key \<longrightarrow> c_value r = v \<Longrightarrow>
   own (foldl (\<lambda>config row. js_assign config (c_key row) (c_value row)) obj rows) key =
     (if key \<in> c_key ` set rows then Some v else own obj key)"
proof (induction rows arbitrary: obj)
  case Nil
  then show ?case by simp
next
  case (Cons r rows)
  let ?F = "\<lambda>config row. js_assign config (c_key row) (c_value row)"
  have rest: "\<forall>r \<in> set rows. c_key r = key \<longrightarrow> c_value r = v"
    using Cons.prems(2) by simp
  have step: "own (foldl ?F (?F obj r) rows) key =
      (if key \<in> c_key ` set rows then Some v else own (?F obj r) key)"
    by (rule Cons.IH[OF Cons.prems(1) rest])
  have head: "own (?F obj r) key = (if c_key r = key then Some v else own obj key)"
  proof (cases "c_key r = key")
    case True
    then have "c_value r = v" using Cons.prems(2) by simp
    then show ?thesis using True Cons.prems(1) js_assign_own_same[of key obj v] by simp
  next
    case False
    then show ?thesis using js_assign_own_other[of key "c_key r" obj "c_value r"] by simp
  qed
  have "foldl ?F obj (r # rows) = foldl ?F (?F obj r) rows" by simp
  then show ?case using step head by auto
qed

lemma foldl_assign_frame:
  "k' \<noteq> k \<Longrightarrow> own o1 k' = own o2 k' \<Longrightarrow>
   (k \<noteq> ''__proto__'' \<longrightarrow> has_object_prototype o1 = has_object_prototype o2) \<Longrightarrow>
   own (foldl (\<lambda>config row. js_assign config (c_key row) (c_value row)) o1
          (map (\<lambda>r. if c_key r = k then r\<lparr>c_value := v\<rparr> else r) rows)) k' =
   own (foldl (\<lambda>config row. js_assign config (c_key row) (c_value row)) o2 rows) k'"
proof (induction rows arbitrary: o1 o2)
  case Nil
  then show ?case by simp
next
  case (Cons r rows)
  let ?u = "if c_key r = k then r\<lparr>c_value := v\<rparr> else r"
  have own': "own (js_assign o1 (c_key ?u) (c_value ?u)) k' = own (js_assign o2 (c_key r) (c_value r)) k'"
    using Cons.prems by (auto simp: js_assign_def split: option.splits)
  have proto': "k \<noteq> ''__proto__'' \<longrightarrow>
      has_object_prototype (js_assign o1 (c_key ?u) (c_value ?u)) =
      has_object_prototype (js_assign o2 (c_key r) (c_value r))"
    using Cons.prems by (auto simp: js_assign_def split: option.splits)
  show ?case
    using Cons.IH[OF Cons.prems(1) own' proto'] by simp
qed

lemma set_config_then_get_config:
  assumes "key \<noteq> []" and "key \<noteq> ''__proto__''" and "text_ok key"
    and "text_param_ok (prepareValue v)"
  shows "\<exists>s' m. set_config served (Str key) v s = (Some (Inr (Str key, v)), s') \<and>
           get_config served s' = (Some (Inr m), s') \<and> m key = Some (prepareValue v)"
proof -
  let ?rows = "if key \<in> set (map c_key (web_skyling_config s))
     then map (\<lambda>r. if c_key r = key then r\<lparr>c_value := prepareValue v\<rparr> else r)
            (web_skyling_config s)
     else web_skyling_config s @ [\<lparr>c_key = key, c_value = prepareValue v\<rparr>]"
  have all: "\<forall>r \<in> set ?rows. c_key r = key \<longrightarrow> c_value r = prepareValue v"
    by auto
  have "\<lparr>c_key = key, c_value = prepareValue v\<rparr> \<in> set ?rows"
    by (rule set_config_stores)
  from imageI[OF this, of c_key] have "key \<in> c_key ` set ?rows"
    by (simp only: config_row.simps)
  then show ?thesis
    using foldl_assign_value[OF assms(2) all, of object_literal]
    by (simp add: set_config_served[OF assms(1,3,4)] get_config_served)
qed

lemma set_config_frame:
  assumes "key \<noteq> []" and "key' \<noteq> key" and "text_ok key" and "text_param_ok (prepareValue v)"
  shows "\<exists>s' m m'. set_config served (Str key) v s = (Some (Inr (Str key, v)), s') \<and>
           get_config served s = (Some (Inr m), s) \<and> get_config served s' = (Some (Inr m'), s') \<and>
           m' key' = m key'"
proof -
  let ?F = "\<lambda>config row. js_assign config (c_key row) (c_value row)"
  let ?rows = "if key \<in> set (map c_key (web_skyling_config s))
     then map (\<lambda>r. if c_key r = key then r\<lparr>c_value := prepareValue v\<rparr> else r)
            (web_skyling_config s)
     else web_skyling_config s @ [\<lparr>c_key = key, c_value = prepareValue v\<rparr>]"
  have "own (foldl ?F object_literal ?rows) key' =
        own (foldl ?F object_literal (web_skyling_config s)) key'"
  proof (cases "key \<in> set (map c_key (web_skyling_config s))")
    case True
    then show ?thesis
      using foldl_assign_frame[OF assms(2), of object_literal object_literal
          "prepareValue v" "web_skyling_config s"]
      by (simp only: if_True simp_thms)
  next
    case False
    then show ?thesis
      using assms(2) by (simp add: js_assign_own_other)
  qed
  then show ?thesis
    by (simp add: set_config_served[OF assms(1,3,4)] get_config_served)
qed

text \<open>
  Claim C7 says that after SetConfig with key \<open>k\<close> and value \<open>v\<close>, GetConfig maps \<open>k\<close> to
  \<open>v\<close>, and that a later SetConfig on \<open>k\<close> changes the value of no other key. The second
  part holds for every key (\<open>set_config_frame\<close>) and the first for every key other than
  \<^verbatim>\<open>__proto__\<close> (\<open>set_config_then_get_config\<close>). For the key \<^verbatim>\<open>__proto__\<close> the first
  part fails: SetConfig stores the row and reports success, and GetConfig returns the
  other keys without it.
\<close>

theorem get_config_omits_proto_key:
  "\<exists>s' m. set_config served (Str ''__proto__'') (Str ''Y'') landing_ab
             = (Some (Inr (Str ''__proto__'', Str ''Y'')), s') \<and>
          web_skyling_config s' =
            [\<lparr>c_key = ''systemPrompt'', c_value = Some ''X''\<rparr>,
             \<lparr>c_key = ''__proto__'', c_value = Some ''Y''\<rparr>] \<and>
          get_config served s' = (Some (Inr m), s') \<and>
          m ''systemPrompt'' = Some (Some ''X'') \<and> m ''__proto__'' = None"
  by (simp add: set_config_def get_config_def select_config_def
      insert_config_on_conflict_update_def landing_ab_def text_ok_def
      js_assign_def object_literal_def)

text \<open>
  Claim C10 says that SetConfig with a non-empty key and no value stores a \<^verbatim>\<open>NULL\<close>, and
  that GetConfig then returns the key, mapped to \<^verbatim>\<open>null\<close>. The row is stored with
  \<^verbatim>\<open>NULL\<close> for every key, and GetConfig returns \<^verbatim>\<open>null\<close> for every key other than
  \<^verbatim>\<open>__proto__\<close> (\<open>set_config_then_get_config\<close> with \<open>v = Undefined\<close>). For the key
  \<^verbatim>\<open>__proto__\<close> the stored \<^verbatim>\<open>NULL\<close> replaces the prototype of the result object
  and GetConfig returns the other keys without it.
\<close>

theorem get_config_omits_null_proto_key:
  "\<exists>s' m. set_config served (Str ''__proto__'') Undefined landing_ab
             = (Some (Inr (Str ''__proto__'', Undefined)), s') \<and>
          web_skyling_config s' =
            [\<lparr>c_key = ''systemPrompt'', c_value = Some ''X''\<rparr>,
             \<lparr>c_key = ''__proto__'', c_value = None\<rparr>] \<and>
          get_config served s' = (Some (Inr m), s') \<and>
          m ''systemPrompt'' = Some (Some ''X'') \<and> m ''__proto__'' = None"
  by (simp add: set_config_def get_config_def select_config_def
      insert_config_on_conflict_update_def landing_ab_def text_ok_def
      js_assign_def object_literal_def)

end
